theory Spec2Isabelle
  imports Complex_Main
begin

section \<open>JavaScript values\<close>

text \<open>
  The server is written in JavaScript. The values that flow through the parameter
  validator are the values a query string, a form body or a JSON body can deliver, and
  the literals of the parameter specifications. Numbers are IEEE doubles in the source;
  here a number is an exact rational or one of the three special values, so that every
  double has a representative. Strings are lists of 8-bit characters.
\<close>

datatype js_number = Fin rat | PosInfinity | NegInfinity | NaN

datatype jsval =
    JUndefined
  | JNull
  | JBool bool
  | JNum js_number
  | JStr string
  | JArr "jsval list"
  | JObj "(string \<times> jsval) list"

text \<open>
  The built-in operations of the language that the source calls and that are not
  written out here are parameters of the model: \<open>String(v)\<close> for a value that is
  not already a string, null, undefined or a boolean, \<open>parseInt\<close>, \<open>Number\<close>,
  \<open>JSON.parse\<close> (\<open>None\<close> when it throws) and the relational comparison
  \<open>a < b\<close> between operands that are not both numbers.
\<close>

record builtins =
  String_of :: "jsval \<Rightarrow> string"
  parseInt :: "string \<Rightarrow> js_number"
  Number_of :: "string \<Rightarrow> js_number"
  JSON_parse :: "string \<Rightarrow> jsval option"
  compareLess :: "jsval \<Rightarrow> jsval \<Rightarrow> bool"

definition js_String :: "builtins \<Rightarrow> jsval \<Rightarrow> string" where
  "js_String js v =
     (case v of
        JStr s \<Rightarrow> s
      | JUndefined \<Rightarrow> ''undefined''
      | JNull \<Rightarrow> ''null''
      | JBool b \<Rightarrow> (if b then ''true'' else ''false'')
      | _ \<Rightarrow> String_of js v)"

text \<open>\<open>String.prototype.trim\<close>: white space and line terminators go, at both ends.\<close>

definition is_space :: "char \<Rightarrow> bool" where
  "is_space c = (c \<in> set [CHR 0x09, CHR 0x0A, CHR 0x0B, CHR 0x0C, CHR 0x0D, CHR 0x20, CHR 0xA0])"

definition js_trim :: "string \<Rightarrow> string" where
  "js_trim s = rev (dropWhile is_space (rev (dropWhile is_space s)))"

text \<open>
  \<open>Array.prototype.includes\<close> compares with SameValueZero: primitives by value, arrays
  and objects by identity. The value looked for in the source is a string, a number, a
  boolean or a freshly parsed JSON value, so an array or an object is never found.
\<close>

definition sameValueZero :: "jsval \<Rightarrow> jsval \<Rightarrow> bool" where
  "sameValueZero a b =
     (case b of
        JArr _ \<Rightarrow> False
      | JObj _ \<Rightarrow> False
      | _ \<Rightarrow> a = b)"

definition js_includes :: "jsval list \<Rightarrow> jsval \<Rightarrow> bool" where
  "js_includes xs v = list_ex (\<lambda>x. sameValueZero x v) xs"

text \<open>The relational comparison: written out between two numbers, a parameter otherwise.\<close>

fun lt_number :: "js_number \<Rightarrow> js_number \<Rightarrow> bool" where
  "lt_number NaN _ = False"
| "lt_number _ NaN = False"
| "lt_number (Fin a) (Fin b) = (a < b)"
| "lt_number (Fin _) PosInfinity = True"
| "lt_number NegInfinity (Fin _) = True"
| "lt_number NegInfinity PosInfinity = True"
| "lt_number _ _ = False"

definition js_lt :: "builtins \<Rightarrow> jsval \<Rightarrow> jsval \<Rightarrow> bool" where
  "js_lt js a b =
     (case (a, b) of
        (JNum x, JNum y) \<Rightarrow> lt_number x y
      | _ \<Rightarrow> compareLess js a b)"

definition js_gt :: "builtins \<Rightarrow> jsval \<Rightarrow> jsval \<Rightarrow> bool" where
  "js_gt js a b = js_lt js b a"

text \<open>The \<open>length\<close> property of a value that is neither null nor undefined.\<close>

definition js_length :: "jsval \<Rightarrow> jsval" where
  "js_length v =
     (case v of
        JStr s \<Rightarrow> JNum (Fin (of_nat (length s)))
      | JArr xs \<Rightarrow> JNum (Fin (of_nat (length xs)))
      | JObj kv \<Rightarrow> (case map_of kv ''length'' of Some x \<Rightarrow> x | None \<Rightarrow> JUndefined)
      | _ \<Rightarrow> JUndefined)"

definition toLowerCase :: "string \<Rightarrow> string" where
  "toLowerCase s =
     map (\<lambda>c. if c \<in> set ''ABCDEFGHIJKLMNOPQRSTUVWXYZ''
               then char_of (of_char c + (32::nat)) else c) s"

section \<open>Regular expressions\<close>

text \<open>
  Every pattern of the source is anchored at both ends and uses classes, sequence,
  alternatives and repetition only, so \<open>match\<close> answers non-null exactly when the whole
  string is in the pattern's language. The language is decided by derivatives.
\<close>

datatype rx =
    NoString
  | EmptyString
  | Class "char list"
  | Or rx rx
  | Then rx rx
  | Many rx

fun nullable :: "rx \<Rightarrow> bool" where
  "nullable NoString = False"
| "nullable EmptyString = True"
| "nullable (Class _) = False"
| "nullable (Or r s) = (nullable r \<or> nullable s)"
| "nullable (Then r s) = (nullable r \<and> nullable s)"
| "nullable (Many _) = True"

fun deriv :: "char \<Rightarrow> rx \<Rightarrow> rx" where
  "deriv c NoString = NoString"
| "deriv c EmptyString = NoString"
| "deriv c (Class cs) = (if c \<in> set cs then EmptyString else NoString)"
| "deriv c (Or r s) = Or (deriv c r) (deriv c s)"
| "deriv c (Then r s) =
     (if nullable r then Or (Then (deriv c r) s) (deriv c s) else Then (deriv c r) s)"
| "deriv c (Many r) = Then (deriv c r) (Many r)"

fun matches :: "rx \<Rightarrow> string \<Rightarrow> bool" where
  "matches r [] = nullable r"
| "matches r (c # cs) = matches (deriv c r) cs"

definition OneOrMore :: "rx \<Rightarrow> rx" where
  "OneOrMore r = Then r (Many r)"

definition Maybe :: "rx \<Rightarrow> rx" where
  "Maybe r = Or EmptyString r"

fun Thens :: "rx list \<Rightarrow> rx" where
  "Thens [] = EmptyString"
| "Thens (r # rs) = Then r (Thens rs)"

definition Times :: "nat \<Rightarrow> rx \<Rightarrow> rx" where
  "Times n r = Thens (replicate n r)"

definition digit :: rx where
  "digit = Class ''0123456789''"

definition rx_int :: rx where
  "rx_int = OneOrMore digit"

definition rx_float :: rx where
  "rx_float = Thens [Maybe (Class ''-''), OneOrMore digit, Maybe (Then (Class ''.'') (OneOrMore digit))]"

definition rx_date_part :: rx where
  "rx_date_part =
     Thens [Times 4 digit, Class ''-'',
           Or (Then (Class ''0'') digit) (Then (Class ''1'') (Class ''12'')), Class ''-'',
           Or (Then (Class ''012'') (Class ''123456789''))
             (Or (Thens [Class ''1'', Class ''0''])
               (Or (Thens [Class ''2'', Class ''0'']) (Then (Class ''3'') (Class ''01''))))]"

definition rx_datetime :: rx where
  "rx_datetime =
     Thens [rx_date_part, Class '' '',
           Or (Then (Class ''01'') digit) (Then (Class ''2'') (Class ''0123'')), Class '':'',
           Then (Class ''012345'') digit, Class '':'',
           Then (Class ''012345'') digit]"

definition rx_date :: rx where
  "rx_date = rx_date_part"

definition hex_ci :: rx where
  "hex_ci = Class ''0123456789abcdefABCDEF''"

definition rx_sha256 :: rx where
  "rx_sha256 = Times 64 hex_ci"

definition rx_uuid :: rx where
  "rx_uuid =
     Thens [Times 8 hex_ci, Class ''-'', Times 4 hex_ci, Class ''-'',
           Class ''12345'', Times 3 hex_ci, Class ''-'',
           Class ''89abAB'', Times 3 hex_ci, Class ''-'', Times 12 hex_ci]"

section \<open>The parameter validator\<close>

datatype error_code =
    PERMISSION_MISSING
  | PERMISSION_SESSION
  | PERMISSION_NO_SESSION
  | PARAM_MISSING
  | PARAM_TYPE
  | PARAM_RANGE
  | HANDLER_ERROR
  | METHOD_ERROR
  | METHOD_UNKNOWN
  | MULTICALL_ERROR

text \<open>
  An \<open>APIParameter\<close>. A field that the source tests with \<open>'name' in parm\<close> is an option:
  \<open>None\<close> when the specification has no such property.
\<close>

record api_parameter =
  key :: string
  type_p :: "string option"
  optional :: bool
  default_p :: "jsval option"
  interpretAsNull :: "jsval list option"
  min_p :: "jsval option"
  max_p :: "jsval option"
  minLength :: "jsval option"
  maxLength :: "jsval option"
  allowedValues :: "jsval list option"

text \<open>
  A \<open>VerificationResult\<close>. \<open>newValue = None\<close> is the object without that property.
\<close>

record verification =
  passed :: bool
  reason :: "string option"
  errorCode :: "error_code option"
  newValue :: "jsval option"

definition verdict_ok :: "jsval \<Rightarrow> verification" where
  "verdict_ok v = \<lparr>passed = True, reason = None, errorCode = None, newValue = Some v\<rparr>"

definition verdict_fail :: "string \<Rightarrow> error_code \<Rightarrow> verification" where
  "verdict_fail msg c = \<lparr>passed = False, reason = Some msg, errorCode = Some c, newValue = None\<rparr>"

type_synonym parms = "string \<rightharpoonup> jsval"

text \<open>
  The \<open>switch\<close> on the type tag, applied to the trimmed text of the value: the pair of
  \<open>typeCheckPassed\<close> and \<open>newValue\<close> after it. A tag with no \<open>case\<close> leaves both as
  they were.
\<close>

definition typeSwitch :: "builtins \<Rightarrow> string \<Rightarrow> string \<Rightarrow> bool \<times> jsval" where
  "typeSwitch js ty s =
     (if ty = ''int'' \<or> ty = ''integer'' then
        (if matches rx_int s then (True, JNum (parseInt js s)) else (False, JStr s))
      else if ty = ''float'' \<or> ty = ''double'' then
        (if matches rx_float s then (True, JNum (Number_of js s)) else (False, JStr s))
      else if ty = ''datetime'' then (matches rx_datetime s, JStr s)
      else if ty = ''date'' then (matches rx_date s, JStr s)
      else if ty = ''boolean'' \<or> ty = ''bool'' then
        (if js_includes [JNum (Fin 1), JBool True, JStr ''true'', JStr ''1''] (JStr s)
           then (True, JBool True)
         else if js_includes [JNum (Fin 0), JBool False, JStr ''false'', JStr ''0''] (JStr s)
           then (True, JBool False)
         else (False, JStr s))
      else if ty = ''char'' then (length s = 1, JStr s)
      else if ty = ''string'' then (length s > 0, JStr s)
      else if ty = ''sha256'' then (matches rx_sha256 s, JStr s)
      else if ty = ''uuid'' then (matches rx_uuid s, JStr s)
      else if ty = ''json'' then
        (case JSON_parse js s of Some obj \<Rightarrow> (True, obj) | None \<Rightarrow> (False, JStr s))
      else (False, JStr s))"

text \<open>
  The checks that follow an accepted type: minimum, maximum, maximal and minimal length,
  allowed values, the first violated one answering.
\<close>

definition violates :: "jsval option \<Rightarrow> (jsval \<Rightarrow> bool) \<Rightarrow> bool" where
  "violates bound test = (case bound of None \<Rightarrow> False | Some m \<Rightarrow> test m)"

definition shown :: "builtins \<Rightarrow> jsval option \<Rightarrow> string" where
  "shown js bound = (case bound of None \<Rightarrow> ''undefined'' | Some m \<Rightarrow> js_String js m)"

definition rangeChecks :: "builtins \<Rightarrow> api_parameter \<Rightarrow> jsval \<Rightarrow> verification" where
  "rangeChecks js parm v =
     (if violates (min_p parm) (\<lambda>m. js_lt js v m) then
        verdict_fail (''Parameter '' @ key parm @ '' is too small, the minimum value is ''
                        @ shown js (min_p parm) @ ''.'') PARAM_RANGE
      else if violates (max_p parm) (\<lambda>m. js_gt js v m) then
        verdict_fail (''Parameter '' @ key parm @ '' is too big, the maximum value is ''
                        @ shown js (max_p parm) @ ''.'') PARAM_RANGE
      else if violates (maxLength parm) (\<lambda>m. js_gt js (js_length v) m) then
        verdict_fail (''Parameter '' @ key parm @ '' is too long, the maximum length is ''
                        @ shown js (maxLength parm) @ ''.'') PARAM_RANGE
      else if violates (minLength parm) (\<lambda>m. js_lt js (js_length v) m) then
        verdict_fail (''Parameter '' @ key parm @ '' is too short, the minimum length is ''
                        @ shown js (minLength parm) @ ''.'') PARAM_RANGE
      else if (case allowedValues parm of None \<Rightarrow> False | Some vs \<Rightarrow> \<not> js_includes vs v) then
        verdict_fail (''Parameter '' @ key parm @ '' has an invalid value.'') PARAM_RANGE
      else verdict_ok v)"

text \<open>The answer for a parameter that was not passed (or passed as null or undefined).\<close>

definition missingParameter :: "api_parameter \<Rightarrow> verification" where
  "missingParameter parm =
     (if optional parm then
        verdict_ok (case default_p parm of
                      None \<Rightarrow> JNull | Some JUndefined \<Rightarrow> JNull | Some d \<Rightarrow> d)
      else
        verdict_fail (''Required parameter '' @ key parm @ '' is missing.'') PARAM_MISSING)"

text \<open>The answer for a present value \<open>raw\<close> under a specification with the type tag \<open>ty\<close>.\<close>

definition checkTyped :: "builtins \<Rightarrow> api_parameter \<Rightarrow> string \<Rightarrow> jsval \<Rightarrow> verification" where
  "checkTyped js parm ty raw =
     (let (typeCheckPassed, v) = typeSwitch js ty (js_trim (js_String js raw));
          newValue = (if v = JNull then raw else v)
      in if (case interpretAsNull parm of None \<Rightarrow> False | Some ns \<Rightarrow> js_includes ns newValue)
         then verdict_ok JNull
         else if \<not> typeCheckPassed then
           verdict_fail (''Parameter '' @ key parm @ '' has the wrong type, expected ''
                           @ ty @ ''.'') PARAM_TYPE
         else rangeChecks js parm newValue)"

text \<open>
  \<open>APIUtils.checkParameter\<close>. The result is \<open>None\<close> where the source function runs off
  its end and returns \<open>undefined\<close>: all its \<open>return\<close> statements for a present value are
  inside \<open>if('type' in parm)\<close>.
\<close>

definition checkParameter :: "builtins \<Rightarrow> api_parameter \<Rightarrow> parms \<Rightarrow> verification option" where
  "checkParameter js parm ps =
     (case ps (key parm) of
        None \<Rightarrow> Some (missingParameter parm)
      | Some JUndefined \<Rightarrow> Some (missingParameter parm)
      | Some JNull \<Rightarrow> Some (missingParameter parm)
      | Some raw \<Rightarrow>
          (case type_p parm of
             None \<Rightarrow> None
           | Some ty \<Rightarrow> Some (checkTyped js parm ty raw)))"

section \<open>Storage\<close>

text \<open>
  Modelled from the spec: the relations of the storage collaborator. The schema is
  not part of the repository; the tables are the ones the queries of the source name
  (users, sessions, pre-auth login tokens, permission grants, permission hierarchy),
  with the columns those queries read and write, as the rows a \<open>SELECT *\<close> delivers
  in table order.
  Identifiers are numbers, timestamps are seconds, and a text column is compared by
  equality. \<open>api_view_users\<close> is read as the table \<open>api_users\<close>. The columns of
  \<open>api_sessions\<close> and of the users carry the aliases \<open>s\<close> and \<open>u\<close> of the query in
  \<open>getSession\<close>, those of the login tokens and of the granted permissions \<open>t\<close> and
  \<open>p\<close>. \<open>app_rows\<close> stands for the tables of the application. A statement that
  the source sends is a function on these tables, and it succeeds.
\<close>

record session_row =
  s_session_id :: nat
  s_user_id :: nat
  s_session_token :: "string option"
  s_start_date :: nat
  s_expiration_date :: nat
  s_last_action :: "nat option"
  s_ip :: string
  s_user_agent :: string

record user_row =
  u_user_id :: nat
  u_login_name :: string
  u_password_hash :: string
  u_active :: bool
  u_admin :: jsval
  u_last_login :: "nat option"

record login_token_row =
  t_expiration_date :: nat
  t_ip :: string
  t_user_agent :: string
  t_login_token :: string

record user_permission_row =
  p_user_id :: nat
  p_permission_key :: string

record permission_row =
  permission_key :: string
  parent_key :: "string option"

record tables =
  api_sessions :: "session_row list"
  api_users :: "user_row list"
  api_login_tokens :: "login_token_row list"
  api_user_permissions :: "user_permission_row list"
  api_permissions :: "permission_row list"
  app_rows :: "(string \<times> jsval) list"

text \<open>
  Modelled from the spec: the transaction primitives of the storage collaborator, on
  one connection. The connection holds the tables as it sees them, the tables as they
  were when the open transaction began (\<open>None\<close> outside a transaction), and the calls
  of the three primitives so far. \<open>APIDatabase.startTransaction\<close>, \<open>commit\<close> and
  \<open>rollback\<close> pass the call on to the driver; here they succeed, a fault of the
  driver itself is not modelled.
\<close>

datatype tx_call = Begin | Commit | Rollback

record db =
  current :: tables
  saved :: "tables option"
  calls :: "tx_call list"

definition startTransaction :: "db \<Rightarrow> db" where
  "startTransaction d = d\<lparr>saved := Some (current d), calls := calls d @ [Begin]\<rparr>"

definition commit :: "db \<Rightarrow> db" where
  "commit d = d\<lparr>saved := None, calls := calls d @ [Commit]\<rparr>"

definition rollback :: "db \<Rightarrow> db" where
  "rollback d =
     (case saved d of
        None \<Rightarrow> d\<lparr>calls := calls d @ [Rollback]\<rparr>
      | Some t \<Rightarrow> d\<lparr>current := t, saved := None, calls := calls d @ [Rollback]\<rparr>)"

section \<open>The permission resolver\<close>

text \<open>The keys whose \<open>parent_key\<close> is the given one, and the keys granted to a user.\<close>

definition children :: "permission_row list \<Rightarrow> string \<Rightarrow> string list" where
  "children rows p = map permission_key (filter (\<lambda>r. parent_key r = Some p) rows)"

definition grants :: "user_permission_row list \<Rightarrow> nat \<Rightarrow> string list" where
  "grants rows u = map p_permission_key (filter (\<lambda>r. p_user_id r = u) rows)"

text \<open>
  The inner loop of both functions: each descendant that the result does not hold yet
  is pushed.
\<close>

fun pushNew :: "string list \<Rightarrow> string list \<Rightarrow> string list" where
  "pushNew result [] = result"
| "pushNew result (d # ds) =
     (if d \<in> set result then pushNew result ds else pushNew (result @ [d]) ds)"

text \<open>
  The outer loop of both functions, over the keys \<open>ks\<close> still to visit: a key that the
  result holds already is skipped, another one is pushed and then expanded by \<open>expand\<close>,
  the recursive call. \<open>None\<close> is a call that does not return.
\<close>

fun collect :: "(string \<Rightarrow> string list option) \<Rightarrow> string list \<Rightarrow> string list \<Rightarrow> string list option" where
  "collect expand [] result = Some result"
| "collect expand (k # ks) result =
     (if k \<in> set result then collect expand ks result
      else Option.bind (expand k) (\<lambda>ds. collect expand ks (pushNew (result @ [k]) ds)))"

lemma collect_mono [partial_function_mono]:
  assumes "\<And>k. mono_option (\<lambda>f. expand f k)"
  shows "mono_option (\<lambda>f. collect (expand f) ks result)"
proof (induction ks arbitrary: result)
  case Nil
  show ?case by (simp add: option.const_mono)
next
  case (Cons k ks)
  show ?case
    unfolding collect.simps
    by (intro partial_function_mono assms Cons.IH)
qed

text \<open>
  \<open>APIUtils.getPermissionDecendants\<close>: the recursion of the source, with no record of
  the keys under expansion. \<open>None\<close> is the call that never returns.
\<close>

partial_function (option) getPermissionDecendants :: "permission_row list \<Rightarrow> string \<Rightarrow> string list option" where
  "getPermissionDecendants rows permission =
     collect (getPermissionDecendants rows) (children rows permission) []"

declare getPermissionDecendants.simps [code]

text \<open>
  A computation of the server: it returns a value, throws, or never returns.
\<close>

datatype js_error = TypeError | ReferenceError

datatype 'a result = Return 'a | Throw js_error | Hang

text \<open>
  \<open>APIUtils.getUserPermissions\<close>. \<open>userID = None\<close> is the identifier that is undefined
  or null; \<open>Return None\<close> is the returned \<open>null\<close>.
\<close>

definition getUserPermissions :: "tables \<Rightarrow> nat option \<Rightarrow> string list option result" where
  "getUserPermissions t userID =
     (case userID of
        None \<Rightarrow> Return None
      | Some u \<Rightarrow>
          (case collect (getPermissionDecendants (api_permissions t))
                  (grants (api_user_permissions t) u) [] of
             None \<Rightarrow> Hang
           | Some userPermissions \<Rightarrow> Return (Some userPermissions)))"

text \<open>
  \<open>APIUtils.userHasPermissions\<close>. \<open>permissions = None\<close> is the list that is undefined or
  null.
\<close>

definition userHasPermissions :: "tables \<Rightarrow> nat option \<Rightarrow> string list option \<Rightarrow> bool result" where
  "userHasPermissions t userID permissions =
     (case permissions of
        None \<Rightarrow> Return True
      | Some [] \<Rightarrow> Return True
      | Some required \<Rightarrow>
          (if userID = None then Return False
           else
             (case getUserPermissions t userID of
                Hang \<Rightarrow> Hang
              | Throw e \<Rightarrow> Throw e
              | Return None \<Rightarrow> Throw TypeError
              | Return (Some userPermissions) \<Rightarrow>
                  Return (list_all (\<lambda>permission. permission \<in> set userPermissions) required))))"

section \<open>Sessions, responses and methods\<close>

text \<open>The session object that \<open>getSession\<close> builds and the handlers receive.\<close>

record session =
  session_id :: nat
  user_id :: nat
  token :: "string option"
  start_date :: nat
  expiration_date :: nat
  admin :: bool

text \<open>
  An \<open>APIResponse\<close>. A property that is absent is \<open>None\<close>; the \<open>session\<close> property is
  absent, null or a session object. The message, the code and the token of a response
  built by \<open>success\<close>, \<open>successSession\<close> and \<open>error\<close> are never null.
\<close>

datatype session_change = NoSessionProperty | SessionNull | SessionObject session

record response =
  success :: bool
  data :: "jsval option"
  msg :: "string option"
  code :: "error_code option"
  session :: session_change
  r_token :: "string option"

definition success_r :: "jsval \<Rightarrow> response" where
  "success_r d =
     \<lparr>success = True, data = Some d, msg = None, code = None,
      session = NoSessionProperty, r_token = None\<rparr>"

definition successSession :: "jsval \<Rightarrow> session option \<Rightarrow> response" where
  "successSession d s =
     \<lparr>success = True, data = Some d, msg = None, code = None,
      session = (case s of None \<Rightarrow> SessionNull | Some x \<Rightarrow> SessionObject x), r_token = None\<rparr>"

definition error_r :: "string option \<Rightarrow> error_code option \<Rightarrow> string option \<Rightarrow> response" where
  "error_r m c tok =
     \<lparr>success = False, data = None, msg = m, code = c,
      session = NoSessionProperty, r_token = tok\<rparr>"

definition dropEmpty :: "jsval option \<Rightarrow> jsval option" where
  "dropEmpty d = (case d of Some JNull \<Rightarrow> None | Some JUndefined \<Rightarrow> None | _ \<Rightarrow> d)"

definition makeClientResponse :: "response \<Rightarrow> response" where
  "makeClientResponse r = r\<lparr>data := dropEmpty (data r)\<rparr>"

text \<open>
  The request, as far as the handlers read it: the address of the client and its
  \<open>user-agent\<close> header.
\<close>

record request =
  ip :: string
  user_agent :: "string option"

text \<open>
  A handler receives the parameters, the session and the request, works on the
  connection and returns a response, throws, or never returns. The response object of
  the transport is left out, and so is the list of methods, which only the multicall
  reads. A handler that returns no object at all behaves like one that throws, since
  \<open>execute\<close> reads a property of the result inside its \<open>try\<close>.
\<close>

datatype handler_outcome = Returned response | Threw | NeverReturns

type_synonym handler = "parms \<Rightarrow> session option \<Rightarrow> request \<Rightarrow> db \<Rightarrow> handler_outcome \<times> db"

text \<open>A handler that only queries: it reads and writes tables and leaves transactions alone.\<close>

definition queries :: "(parms \<Rightarrow> session option \<Rightarrow> request \<Rightarrow> tables \<Rightarrow> handler_outcome \<times> tables) \<Rightarrow> handler" where
  "queries h ps s rq d = (let (out, t) = h ps s rq (current d) in (out, d\<lparr>current := t\<rparr>))"

record api_method =
  path :: string
  handler :: handler
  parameters :: "api_parameter list"
  requireSession :: bool
  requireNoSession :: bool
  requiredPermissions :: "string list option"
  transaction :: bool

section \<open>Authorization and the parameter loop\<close>

definition verdict_passed :: verification where
  "verdict_passed = \<lparr>passed = True, reason = None, errorCode = None, newValue = None\<rparr>"

text \<open>\<open>APIUtils.allowedToExecuteMethod\<close>.\<close>

definition allowedToExecuteMethod :: "tables \<Rightarrow> session option \<Rightarrow> api_method \<Rightarrow> verification result" where
  "allowedToExecuteMethod t ses method =
     (case ses of
        Some s \<Rightarrow>
          (if requireNoSession method then
             Return (verdict_fail ''This method is only available to clients that are not logged in''
                       PERMISSION_SESSION)
           else
             (case userHasPermissions t (Some (user_id s)) (requiredPermissions method) of
                Hang \<Rightarrow> Hang
              | Throw e \<Rightarrow> Throw e
              | Return has \<Rightarrow>
                  (if \<not> has then
                     Return (verdict_fail ''You do not have the necessary permissions to call this method''
                               PERMISSION_MISSING)
                   else Return verdict_passed)))
      | None \<Rightarrow>
          (if requireSession method then
             Return (verdict_fail ''This method is only available to authenticated users''
                       PERMISSION_NO_SESSION)
           else Return verdict_passed))"

text \<open>
  The loop of \<open>APIMethod.canBeExecuted\<close> over the parameter specifications. It ends with
  the failing verdict (\<open>Return (Some c)\<close>), with all parameters checked (\<open>Return None\<close>),
  or with the error of reading \<open>passed\<close> from \<open>undefined\<close>. The parameter object is
  updated in place, so it is returned as well.
\<close>

fun checkParameters :: "builtins \<Rightarrow> api_parameter list \<Rightarrow> parms \<Rightarrow> verification option result \<times> parms" where
  "checkParameters js [] ps = (Return None, ps)"
| "checkParameters js (parm # rest) ps =
     (case checkParameter js parm ps of
        None \<Rightarrow> (Throw TypeError, ps)
      | Some parmCheck \<Rightarrow>
          (if \<not> passed parmCheck then (Return (Some parmCheck), ps)
           else checkParameters js rest
                  (case newValue parmCheck of
                     None \<Rightarrow> ps
                   | Some JUndefined \<Rightarrow> ps
                   | Some v \<Rightarrow> ps(key parm \<mapsto> v))))"

text \<open>\<open>APIMethod.canBeExecuted\<close>.\<close>

definition canBeExecuted :: "builtins \<Rightarrow> tables \<Rightarrow> api_method \<Rightarrow> parms \<Rightarrow> session option \<Rightarrow> verification result \<times> parms" where
  "canBeExecuted js t method ps ses =
     (case checkParameters js (parameters method) ps of
        (Throw e, ps') \<Rightarrow> (Throw e, ps')
      | (Hang, ps') \<Rightarrow> (Hang, ps')
      | (Return (Some parmCheck), ps') \<Rightarrow> (Return parmCheck, ps')
      | (Return None, ps') \<Rightarrow>
          (case allowedToExecuteMethod t ses method of
             Hang \<Rightarrow> (Hang, ps')
           | Throw e \<Rightarrow> (Throw e, ps')
           | Return permissionCheck \<Rightarrow>
               (if \<not> passed permissionCheck then (Return permissionCheck, ps')
                else (Return verdict_passed, ps'))))"

section \<open>The execution pipeline\<close>

text \<open>
  The promise of \<open>APIMethod.execute\<close>: resolved with the response, rejected with an
  error code, or never settled.
\<close>

datatype settled = Resolved response | Rejected error_code | Pending

text \<open>
  \<open>APIMethod.execute\<close>. \<open>transactionStarted\<close> is true exactly when the method is
  transactional, since beginning a transaction succeeds. What the handler wrote before
  it threw is in the connection that the \<open>catch\<close> block rolls back.
\<close>

definition execute :: "api_method \<Rightarrow> parms \<Rightarrow> request \<Rightarrow> session option \<Rightarrow> db \<Rightarrow> settled \<times> db" where
  "execute method ps rq ses d =
     (let d1 = (if transaction method then startTransaction d else d);
          (out, d2) = handler method ps ses rq d1
      in case out of
           Returned methodResult \<Rightarrow>
             (Resolved (methodResult\<lparr>data := dropEmpty (data methodResult)\<rparr>),
              if transaction method
              then (if success methodResult then commit d2 else rollback d2)
              else d2)
         | Threw \<Rightarrow> (Rejected METHOD_ERROR, if transaction method then rollback d2 else d2)
         | NeverReturns \<Rightarrow> (Pending, d2))"

text \<open>
  \<open>APIUtils.tryExecuteMethod\<close>. The callback of \<open>catch\<close> names its parameter
  \<open>errorCode\<close> and passes \<open>err\<close> to \<open>console.log\<close>; no \<open>err\<close> is declared in
  \<open>APIUtils.js\<close>, so evaluating it throws a ReferenceError before the error response
  is built, and the awaited promise rejects with it. The function returns the parameter
  object too, which \<open>canBeExecuted\<close> has updated in place.
\<close>

definition tryExecuteMethod :: "builtins \<Rightarrow> api_method \<Rightarrow> parms \<Rightarrow> session option \<Rightarrow> request \<Rightarrow> db \<Rightarrow> response result \<times> parms \<times> db" where
  "tryExecuteMethod js method ps ses rq d =
     (case canBeExecuted js (current d) method ps ses of
        (Throw e, ps') \<Rightarrow> (Throw e, ps', d)
      | (Hang, ps') \<Rightarrow> (Hang, ps', d)
      | (Return executionVerification, ps') \<Rightarrow>
          (if \<not> passed executionVerification then
             (Return (error_r (reason executionVerification) (errorCode executionVerification) None),
              ps', d)
           else
             (case execute method ps' rq ses d of
                (Resolved methodResult, d') \<Rightarrow> (Return methodResult, ps', d')
              | (Rejected rejection, d') \<Rightarrow> (Throw ReferenceError, ps', d')
              | (Pending, d') \<Rightarrow> (Hang, ps', d'))))"

text \<open>
  The end of \<open>APIServer.methodHandlerWrapper\<close>, from the established session on: the
  response of \<open>tryExecuteMethod\<close> is sent, and an error thrown on the way is answered
  with \<open>HANDLER_ERROR\<close>. \<open>None\<close> is the request that is never answered.
\<close>

definition methodHandlerWrapper :: "builtins \<Rightarrow> api_method \<Rightarrow> parms \<Rightarrow> session option \<Rightarrow> request \<Rightarrow> db \<Rightarrow> response option \<times> db" where
  "methodHandlerWrapper js method ps ses rq d =
     (case tryExecuteMethod js method ps ses rq d of
        (Return methodResponse, ps', d') \<Rightarrow> (Some (makeClientResponse methodResponse), d')
      | (Throw e, ps', d') \<Rightarrow>
          (Some (makeClientResponse
                   (error_r (Some ''An Error occured while handling your request.'')
                      (Some HANDLER_ERROR) None)), d')
      | (Hang, ps', d') \<Rightarrow> (None, d'))"

section \<open>The multicall\<close>

text \<open>
  Reading a property of a value that is neither null nor undefined. An object is the
  list of its properties, each key once; a primitive or an array has none of the
  properties read here (\<open>calls\<close>, \<open>method\<close>).
\<close>

definition js_prop :: "jsval \<Rightarrow> string \<Rightarrow> jsval" where
  "js_prop v k =
     (case v of
        JObj kv \<Rightarrow> (case map_of kv k of Some x \<Rightarrow> x | None \<Rightarrow> JUndefined)
      | _ \<Rightarrow> JUndefined)"

definition parms_of :: "jsval \<Rightarrow> parms" where
  "parms_of v = (case v of JObj kv \<Rightarrow> map_of kv | _ \<Rightarrow> Map.empty)"

text \<open>
  The loop of the \<open>/multicall\<close> handler over the calls left, with the session and the
  responses so far. Looking up the method reads \<open>call.method\<close> outside the \<open>try\<close>, so a
  call that is null throws out of the handler. The \<open>catch\<close> block passes
  \<open>ERROR_CODES.MULTICALL_ERROR\<close> to \<open>apiUtils.error\<close>, and \<open>multicall.js\<close> takes
  \<open>APIModule\<close>, \<open>APIMethod\<close>, \<open>apiUtils\<close>, \<open>db\<close> and \<open>config\<close> from \<open>APIServer.js\<close>
  and nothing else: \<open>ERROR_CODES\<close> is not declared, evaluating it throws a
  ReferenceError inside the \<open>catch\<close> block, and the error leaves the handler.
\<close>

fun multicallCalls :: "builtins \<Rightarrow> api_method list \<Rightarrow> request \<Rightarrow> jsval list \<Rightarrow> session option \<Rightarrow> response list \<Rightarrow> db \<Rightarrow> response list result \<times> db" where
  "multicallCalls js methods rq [] ses responses d = (Return responses, d)"
| "multicallCalls js methods rq (call # rest) ses responses d =
     (if call = JNull \<or> call = JUndefined then (Throw TypeError, d)
      else
        (case find (\<lambda>method. JStr (path method) = js_prop call ''method'') methods of
           None \<Rightarrow> multicallCalls js methods rq rest ses responses d
         | Some method \<Rightarrow>
             (case tryExecuteMethod js method (parms_of call) ses rq d of
                (Return callResponse, call', d') \<Rightarrow>
                  (let responses' = responses @ [makeClientResponse callResponse];
                       ses' = (case session callResponse of
                                 SessionObject s \<Rightarrow> Some s
                               | _ \<Rightarrow> ses)
                   in if call' ''breaking'' = Some (JBool True) \<and> success callResponse = False
                      then (Return responses', d')
                      else multicallCalls js methods rq rest ses' responses' d')
              | (Throw e, call', d') \<Rightarrow> (Throw ReferenceError, d')
              | (Hang, call', d') \<Rightarrow> (Hang, d'))))"

text \<open>The responses as the value that the handler wraps into its own response.\<close>

definition code_name :: "error_code \<Rightarrow> string" where
  "code_name c =
     (case c of
        PERMISSION_MISSING \<Rightarrow> ''PERMISSION_MISSING''
      | PERMISSION_SESSION \<Rightarrow> ''PERMISSION_SESSION''
      | PERMISSION_NO_SESSION \<Rightarrow> ''PERMISSION_NO_SESSION''
      | PARAM_MISSING \<Rightarrow> ''PARAM_MISSING''
      | PARAM_TYPE \<Rightarrow> ''PARAM_TYPE''
      | PARAM_RANGE \<Rightarrow> ''PARAM_RANGE''
      | HANDLER_ERROR \<Rightarrow> ''HANDLER_ERROR''
      | METHOD_ERROR \<Rightarrow> ''METHOD_ERROR''
      | METHOD_UNKNOWN \<Rightarrow> ''METHOD_UNKNOWN''
      | MULTICALL_ERROR \<Rightarrow> ''MULTICALL_ERROR'')"

definition session_json :: "session \<Rightarrow> jsval" where
  "session_json s =
     JObj [(''session_id'', JNum (Fin (of_nat (session_id s)))),
           (''user_id'', JNum (Fin (of_nat (user_id s)))),
           (''token'', (case token s of None \<Rightarrow> JNull | Some x \<Rightarrow> JStr x)),
           (''start_date'', JNum (Fin (of_nat (start_date s)))),
           (''expiration_date'', JNum (Fin (of_nat (expiration_date s)))),
           (''admin'', JBool (admin s))]"

definition property :: "string \<Rightarrow> 'a option \<Rightarrow> ('a \<Rightarrow> jsval) \<Rightarrow> (string \<times> jsval) list" where
  "property k v f = (case v of None \<Rightarrow> [] | Some x \<Rightarrow> [(k, f x)])"

definition response_json :: "response \<Rightarrow> jsval" where
  "response_json r =
     JObj ([(''success'', JBool (success r))]
           @ property ''data'' (data r) (\<lambda>x. x)
           @ property ''msg'' (msg r) JStr
           @ property ''code'' (code r) (\<lambda>c. JStr (code_name c))
           @ (case session r of
                NoSessionProperty \<Rightarrow> []
              | SessionNull \<Rightarrow> [(''session'', JNull)]
              | SessionObject s \<Rightarrow> [(''session'', session_json s)])
           @ property ''token'' (r_token r) JStr)"

text \<open>
  The handler of \<open>/multicall\<close> over the registered methods, and the method itself. The
  registered methods are a parameter; a list of methods cannot hold the multicall built
  over itself, so a batch entry that names \<open>/multicall\<close> again is outside the model.
\<close>

definition multicall_handler :: "builtins \<Rightarrow> api_method list \<Rightarrow> handler" where
  "multicall_handler js methods ps ses rq d =
     (case ps ''content'' of
        None \<Rightarrow> (Threw, d)
      | Some JNull \<Rightarrow> (Threw, d)
      | Some JUndefined \<Rightarrow> (Threw, d)
      | Some content \<Rightarrow>
          (case js_prop content ''calls'' of
             JArr cs \<Rightarrow>
               (case multicallCalls js methods rq cs ses [] d of
                  (Return responses, d') \<Rightarrow>
                    (Returned (success_r (JObj [(''responses'', JArr (map response_json responses))])), d')
                | (Throw e, d') \<Rightarrow> (Threw, d')
                | (Hang, d') \<Rightarrow> (NeverReturns, d'))
           | _ \<Rightarrow> (Returned (error_r (Some ''No calls transmitted for the multicall.'') None None), d)))"

definition content_spec :: api_parameter where
  "content_spec =
     \<lparr>key = ''content'', type_p = Some ''json'', optional = False, default_p = None,
      interpretAsNull = None, min_p = None, max_p = None, minLength = None,
      maxLength = None, allowedValues = None\<rparr>"

definition multicall_method :: "builtins \<Rightarrow> api_method list \<Rightarrow> api_method" where
  "multicall_method js methods =
     \<lparr>path = ''/multicall'', handler = multicall_handler js methods,
      parameters = [content_spec],
      requireSession = False, requireNoSession = False,
      requiredPermissions = Some [], transaction = False\<rparr>"

section \<open>The session manager\<close>

text \<open>
  \<open>APIUtils.getSession\<close>: the first row of the sessions with the given identifier,
  joined to the first user of that row; \<open>admin\<close> is true when the joined column is the
  number 1.
\<close>

definition getSession :: "tables \<Rightarrow> nat \<Rightarrow> session option" where
  "getSession t sessionID =
     (case find (\<lambda>s. s_session_id s = sessionID) (api_sessions t) of
        None \<Rightarrow> None
      | Some s \<Rightarrow>
          Some \<lparr>session_id = s_session_id s, user_id = s_user_id s,
                token = s_session_token s, start_date = s_start_date s,
                expiration_date = s_expiration_date s,
                admin = (case find (\<lambda>u. u_user_id u = s_user_id s) (api_users t) of
                           None \<Rightarrow> False
                         | Some u \<Rightarrow> u_admin u = JNum (Fin 1))\<rparr>)"

text \<open>
  The statements that change a table, each as the function on the tables that the
  query is: the renewal of a session in \<open>establishSession\<close>, and in the login handler
  the deletion of the login tokens of a client, the insertion of a session with the
  identifier it reports, the update that stores the session token and the update that
  records the login. The identifier that an insertion reports (\<open>insertId\<close>) is one that
  no row has yet; here it is the successor of the largest identifier in the table.
\<close>

definition renewSession :: "nat \<Rightarrow> nat \<Rightarrow> tables \<Rightarrow> tables" where
  "renewSession now sessionID t =
     t\<lparr>api_sessions :=
         map (\<lambda>s. if s_session_id s = sessionID
                   then s\<lparr>s_last_action := Some now, s_expiration_date := now + 3600\<rparr>
                   else s)
           (api_sessions t)\<rparr>"

definition deleteLoginTokens :: "string \<Rightarrow> string \<Rightarrow> tables \<Rightarrow> tables" where
  "deleteLoginTokens client_ip userAgent t =
     t\<lparr>api_login_tokens :=
         filter (\<lambda>k. \<not> (t_ip k = client_ip \<and> t_user_agent k = userAgent)) (api_login_tokens t)\<rparr>"

definition insertId :: "session_row list \<Rightarrow> nat" where
  "insertId rows = Suc (foldr max (map s_session_id rows) 0)"

definition insertSession :: "nat \<Rightarrow> nat \<Rightarrow> string \<Rightarrow> string \<Rightarrow> tables \<Rightarrow> tables" where
  "insertSession now userID client_ip userAgent t =
     t\<lparr>api_sessions := api_sessions t @
         [\<lparr>s_session_id = insertId (api_sessions t), s_user_id = userID,
           s_session_token = None, s_start_date = now, s_expiration_date = now + 3600,
           s_last_action = None, s_ip = client_ip, s_user_agent = userAgent\<rparr>]\<rparr>"

definition storeSessionToken :: "string \<Rightarrow> nat \<Rightarrow> tables \<Rightarrow> tables" where
  "storeSessionToken sessionToken sessionID t =
     t\<lparr>api_sessions :=
         map (\<lambda>s. if s_session_id s = sessionID then s\<lparr>s_session_token := Some sessionToken\<rparr> else s)
           (api_sessions t)\<rparr>"

definition recordLogin :: "nat \<Rightarrow> nat \<Rightarrow> tables \<Rightarrow> tables" where
  "recordLogin now userID t =
     t\<lparr>api_users :=
         map (\<lambda>u. if u_user_id u = userID then u\<lparr>u_last_login := Some now\<rparr> else u)
           (api_users t)\<rparr>"

text \<open>\<open>APIUtils.establishSession\<close> at the time \<open>now\<close>, in seconds.\<close>

definition establishSession :: "nat \<Rightarrow> tables \<Rightarrow> string \<Rightarrow> session option \<times> tables" where
  "establishSession now t sessionToken =
     (case filter (\<lambda>s. s_session_token s = Some sessionToken) (api_sessions t) of
        [] \<Rightarrow> (None, t)
      | row # _ \<Rightarrow>
          (case getSession t (s_session_id row) of
             None \<Rightarrow> (None, t)
           | Some ses \<Rightarrow> (Some ses, renewSession now (session_id ses) t)))"

text \<open>
  What the login handler takes from outside the repository: the SHA-256 digest of a
  text, the clock, and the UUID that \<open>getUUID\<close> returns in this call.
\<close>

record login_env =
  sha256 :: "string \<Rightarrow> string"
  clock :: nat
  getUUID :: string

definition client_agent :: "request \<Rightarrow> string" where
  "client_agent rq =
     (let userAgent = (case user_agent rq of None \<Rightarrow> ''NO USER AGENT'' | Some a \<Rightarrow> a)
      in if length userAgent > 200 then take 200 userAgent else userAgent)"

text \<open>
  The handler of \<open>/session/login\<close>, in the order of the source and in three parts.
  The last part runs once the credentials are verified: the login tokens of the client
  are deleted, the session is inserted, its token is generated and stored, the session
  is loaded, the login is recorded, and the loaded session is returned as data and as
  the new session.
\<close>

definition openSession :: "login_env \<Rightarrow> user_row \<Rightarrow> request \<Rightarrow> tables \<Rightarrow> handler_outcome \<times> tables" where
  "openSession env user rq t =
     (let t1 = deleteLoginTokens (ip rq) (client_agent rq) t;
          sessionID = insertId (api_sessions t1);
          t2 = insertSession (clock env) (u_user_id user) (ip rq) (client_agent rq) t1;
          t3 = storeSessionToken (getUUID env) sessionID t2
      in case getSession t3 sessionID of
           None \<Rightarrow> (Returned (error_r (Some ''Error while loading the session'') None None), t3)
         | Some loadedSession \<Rightarrow>
             (Returned (successSession (JObj [(''session'', session_json loadedSession)])
                          (Some loadedSession)),
              recordLogin (clock env) (u_user_id user) t3))"

text \<open>
  The part before it: the user is looked up by name and must be active, the login
  token issued to the client is loaded, and the presented digest is compared with the
  digest of the stored password hash followed by that token.
\<close>

definition checkCredentials :: "login_env \<Rightarrow> string \<Rightarrow> string \<Rightarrow> request \<Rightarrow> tables \<Rightarrow> handler_outcome \<times> tables" where
  "checkCredentials env username presented rq t =
     (case filter (\<lambda>u. u_login_name u = username) (api_users t) of
        [] \<Rightarrow> (Returned (error_r (Some ''User not found'') None None), t)
      | user # _ \<Rightarrow>
          (if \<not> u_active user then
             (Returned (error_r (Some ''User account not activated'') None None), t)
           else
             (case filter (\<lambda>k. t_ip k = ip rq \<and> t_user_agent k = client_agent rq)
                     (api_login_tokens t) of
                [] \<Rightarrow> (Returned (error_r (Some ''No valid login-token found for your client'') None None), t)
              | loginToken # _ \<Rightarrow>
                  (if toLowerCase (sha256 env (u_password_hash user @ t_login_token loginToken))
                        \<noteq> toLowerCase presented then
                     (Returned (error_r (Some ''Wrong password'') None None), t)
                   else openSession env user rq t))))"

text \<open>
  The handler itself. The pipeline hands it the user name and the digest after
  validation, both strings; for another shape the handler is taken to throw.
\<close>

definition login :: "login_env \<Rightarrow> parms \<Rightarrow> session option \<Rightarrow> request \<Rightarrow> tables \<Rightarrow> handler_outcome \<times> tables" where
  "login env ps ses rq t =
     (case ps ''username'' of
        Some (JStr username) \<Rightarrow>
          (case ps ''password_hash'' of
             Some (JStr presented) \<Rightarrow> checkCredentials env username presented rq t
           | _ \<Rightarrow> (Threw, t))
      | _ \<Rightarrow> (Threw, t))"

definition string_spec :: "string \<Rightarrow> string \<Rightarrow> api_parameter" where
  "string_spec k ty =
     \<lparr>key = k, type_p = Some ty, optional = False, default_p = None,
      interpretAsNull = None, min_p = None, max_p = None, minLength = None,
      maxLength = None, allowedValues = None\<rparr>"

definition login_method :: "login_env \<Rightarrow> api_method" where
  "login_method env =
     \<lparr>path = ''/session/login'', handler = queries (login env),
      parameters = [string_spec ''username'' ''string'', string_spec ''password_hash'' ''sha256''],
      requireSession = False, requireNoSession = True,
      requiredPermissions = Some [], transaction = True\<rparr>"

text \<open>
  \<open>deleteSession\<close>, and the handler of \<open>/session/logout\<close>: the session row is deleted
  and an empty session is passed back. Without a session, reading
  \<open>session.session_id\<close> throws.
\<close>

definition deleteSession :: "nat \<Rightarrow> tables \<Rightarrow> tables" where
  "deleteSession sessionID t =
     t\<lparr>api_sessions := filter (\<lambda>r. s_session_id r \<noteq> sessionID) (api_sessions t)\<rparr>"

definition logout :: "parms \<Rightarrow> session option \<Rightarrow> request \<Rightarrow> tables \<Rightarrow> handler_outcome \<times> tables" where
  "logout ps ses rq t =
     (case ses of
        None \<Rightarrow> (Threw, t)
      | Some s \<Rightarrow> (Returned (successSession JNull None), deleteSession (session_id s) t))"

definition logout_method :: api_method where
  "logout_method =
     \<lparr>path = ''/session/logout'', handler = queries logout, parameters = [],
      requireSession = True, requireNoSession = False,
      requiredPermissions = Some [], transaction = True\<rparr>"

section \<open>The descendant closure in the words of the specification\<close>

text \<open>
  The specification speaks of the keys reachable from a key by walking from a parent
  to its children, any number of steps and at least one. \<open>edges\<close> holds a pair of a
  parent and a child for every row of the hierarchy that names a parent;
  \<open>descendant_closure\<close> is what the transitive closure of the edges reaches. A
  hierarchy is well formed when its edges have no cycle. A key is \<open>cycle_free\<close> when no
  cycle can be reached from it: neither the key nor any of its descendants is its own
  descendant.
\<close>

definition edges :: "permission_row list \<Rightarrow> (string \<times> string) set" where
  "edges rows =
     set (concat (map (\<lambda>r. case parent_key r of None \<Rightarrow> [] | Some p \<Rightarrow> [(p, permission_key r)]) rows))"

definition descendant_closure :: "permission_row list \<Rightarrow> string \<Rightarrow> string set" where
  "descendant_closure rows p = (edges rows)\<^sup>+ `` {p}"

definition closed_under :: "permission_row list \<Rightarrow> string list \<Rightarrow> bool" where
  "closed_under rows result = (\<forall>x\<in>set result. descendant_closure rows x \<subseteq> set result)"

definition cycle_free :: "permission_row list \<Rightarrow> string \<Rightarrow> bool" where
  "cycle_free rows p
     = (\<forall>c\<in>insert p (descendant_closure rows p). c \<notin> descendant_closure rows c)"

section \<open>Example data\<close>

text \<open>A client, and a connection over empty tables.\<close>

definition rq0 :: request where
  "rq0 = \<lparr>ip = ''203.0.113.5'', user_agent = Some ''curl''\<rparr>"

definition empty_tables :: tables where
  "empty_tables =
     \<lparr>api_sessions = [], api_users = [], api_login_tokens = [],
      api_user_permissions = [], api_permissions = [], app_rows = []\<rparr>"

definition db0 :: db where
  "db0 = \<lparr>current = empty_tables, saved = None, calls = []\<rparr>"

text \<open>
  A method with a parameter specification that has no type, and that requires the
  permission \<open>greet\<close> but no session.
\<close>

definition untyped_spec :: api_parameter where
  "untyped_spec =
     \<lparr>key = ''name'', type_p = None, optional = False, default_p = None,
      interpretAsNull = None, min_p = None, max_p = None, minLength = None,
      maxLength = None, allowedValues = None\<rparr>"

definition greet_handler :: handler where
  "greet_handler = queries (\<lambda>ps s rq t. (Returned (success_r (JStr ''hello'')), t))"

definition greet_method :: api_method where
  "greet_method =
     \<lparr>path = ''/greet'', handler = greet_handler, parameters = [untyped_spec],
      requireSession = False, requireNoSession = False,
      requiredPermissions = Some [''greet''], transaction = False\<rparr>"

text \<open>An integer parameter with a list of values to read as null.\<close>

definition age_spec :: "jsval list \<Rightarrow> api_parameter" where
  "age_spec ns =
     \<lparr>key = ''age'', type_p = Some ''int'', optional = False, default_p = None,
      interpretAsNull = Some ns, min_p = None, max_p = None, minLength = None,
      maxLength = None, allowedValues = None\<rparr>"

text \<open>
  The session 7 of the user 1, the tables that hold it, and the same tables after the
  session was deleted.
\<close>

definition some_session :: session where
  "some_session =
     \<lparr>session_id = 7, user_id = 1, token = Some ''tok'', start_date = 0,
      expiration_date = 3600, admin = False\<rparr>"

definition session_tables :: tables where
  "session_tables =
     \<lparr>api_sessions =
        [\<lparr>s_session_id = 7, s_user_id = 1, s_session_token = Some ''tok'', s_start_date = 0,
          s_expiration_date = 3600, s_last_action = None, s_ip = ''203.0.113.5'',
          s_user_agent = ''curl''\<rparr>],
      api_users =
        [\<lparr>u_user_id = 1, u_login_name = ''alice'', u_password_hash = ''secret'',
          u_active = True, u_admin = JBool False, u_last_login = None\<rparr>],
      api_login_tokens = [], api_user_permissions = [], api_permissions = [], app_rows = []\<rparr>"

definition logged_out_tables :: tables where
  "logged_out_tables = session_tables\<lparr>api_sessions := []\<rparr>"

definition db1 :: db where
  "db1 = \<lparr>current = session_tables, saved = None, calls = []\<rparr>"

text \<open>
  A transactional method whose handler writes a row and then throws, a method that
  answers every caller, and a method that tells a logged-in caller the identifier of its
  user.
\<close>

definition create_order :: "parms \<Rightarrow> session option \<Rightarrow> request \<Rightarrow> tables \<Rightarrow> handler_outcome \<times> tables" where
  "create_order ps ses rq t =
     (Threw, t\<lparr>app_rows := app_rows t @ [(''order'', JStr ''half written'')]\<rparr>)"

definition order_method :: api_method where
  "order_method =
     \<lparr>path = ''/orders/create'', handler = queries create_order, parameters = [],
      requireSession = False, requireNoSession = False,
      requiredPermissions = Some [], transaction = True\<rparr>"

definition ping_method :: api_method where
  "ping_method =
     \<lparr>path = ''/ping'',
      handler = queries (\<lambda>ps s rq t. (Returned (success_r (JStr ''pong'')), t)),
      parameters = [],
      requireSession = False, requireNoSession = False,
      requiredPermissions = Some [], transaction = False\<rparr>"

definition whoami :: "parms \<Rightarrow> session option \<Rightarrow> request \<Rightarrow> tables \<Rightarrow> handler_outcome \<times> tables" where
  "whoami ps ses rq t =
     (case ses of
        None \<Rightarrow> (Threw, t)
      | Some s \<Rightarrow> (Returned (success_r (JNum (Fin (of_nat (user_id s))))), t))"

definition whoami_method :: api_method where
  "whoami_method =
     \<lparr>path = ''/whoami'', handler = queries whoami, parameters = [],
      requireSession = True, requireNoSession = False,
      requiredPermissions = Some [], transaction = False\<rparr>"

text \<open>The entries of a batch that name these methods, and the response of a logout.\<close>

definition order_call :: jsval where
  "order_call = JObj [(''method'', JStr ''/orders/create'')]"

definition ping_call :: jsval where
  "ping_call = JObj [(''method'', JStr ''/ping'')]"

definition logout_call :: jsval where
  "logout_call = JObj [(''method'', JStr ''/session/logout'')]"

definition whoami_call :: jsval where
  "whoami_call = JObj [(''method'', JStr ''/whoami'')]"

definition logout_response :: response where
  "logout_response =
     \<lparr>success = True, data = None, msg = None, code = None, session = SessionNull,
      r_token = None\<rparr>"

text \<open>The parameters of a login under a name that no user has.\<close>

definition digest0 :: string where
  "digest0 = ''0123456789abcdef0123456789abcdef0123456789abcdef0123456789abcdef''"

definition login_parms :: parms where
  "login_parms = [''username'' \<mapsto> JStr ''mallory'', ''password_hash'' \<mapsto> JStr digest0]"

text \<open>
  Tables with the users bob and alice, a session of bob and a login token issued to the
  client; the environment of a login at the time 100 that generates the token \<open>uuid0\<close>,
  over any digest function; the credentials of alice under that function; and the
  session that her login creates.
\<close>

definition uuid0 :: string where
  "uuid0 = ''6fa459ea-ee8a-4ca4-894e-db77e160355e''"

definition login_tables :: tables where
  "login_tables =
     \<lparr>api_sessions =
        [\<lparr>s_session_id = 7, s_user_id = 2, s_session_token = Some ''tok'', s_start_date = 0,
          s_expiration_date = 3600, s_last_action = None, s_ip = ''198.51.100.9'',
          s_user_agent = ''firefox''\<rparr>],
      api_users =
        [\<lparr>u_user_id = 2, u_login_name = ''bob'', u_password_hash = ''hunter2'',
          u_active = True, u_admin = JBool False, u_last_login = None\<rparr>,
         \<lparr>u_user_id = 1, u_login_name = ''alice'', u_password_hash = ''secret'',
          u_active = True, u_admin = JBool False, u_last_login = None\<rparr>],
      api_login_tokens =
        [\<lparr>t_expiration_date = 3600, t_ip = ''203.0.113.5'', t_user_agent = ''curl'',
          t_login_token = ''nonce''\<rparr>],
      api_user_permissions = [], api_permissions = [], app_rows = []\<rparr>"

definition env_with :: "(string \<Rightarrow> string) \<Rightarrow> login_env" where
  "env_with sha = \<lparr>sha256 = sha, clock = 100, getUUID = uuid0\<rparr>"

definition alice_credentials :: "(string \<Rightarrow> string) \<Rightarrow> parms" where
  "alice_credentials sha =
     [''username'' \<mapsto> JStr ''alice'', ''password_hash'' \<mapsto> JStr (sha (''secret'' @ ''nonce''))]"

definition alice_session :: session where
  "alice_session =
     \<lparr>session_id = 8, user_id = 1, token = Some uuid0, start_date = 100,
      expiration_date = 3700, admin = False\<rparr>"

text \<open>
  A hierarchy in which \<open>a\<close> and \<open>b\<close> are each other's parent, with a user who is granted
  \<open>a\<close>; and a well-formed hierarchy of three keys, with the grants of two users.
\<close>

definition cyclic_rows :: "permission_row list" where
  "cyclic_rows =
     [\<lparr>permission_key = ''a'', parent_key = Some ''b''\<rparr>,
      \<lparr>permission_key = ''b'', parent_key = Some ''a''\<rparr>]"

definition cyclic_tables :: tables where
  "cyclic_tables =
     empty_tables\<lparr>api_user_permissions := [\<lparr>p_user_id = 1, p_permission_key = ''a''\<rparr>],
                   api_permissions := cyclic_rows\<rparr>"

definition reports_tables :: tables where
  "reports_tables =
     empty_tables
       \<lparr>api_user_permissions :=
          [\<lparr>p_user_id = 1, p_permission_key = ''reports''\<rparr>,
           \<lparr>p_user_id = 1, p_permission_key = ''reports.export''\<rparr>,
           \<lparr>p_user_id = 2, p_permission_key = ''audit''\<rparr>],
        api_permissions :=
          [\<lparr>permission_key = ''reports'', parent_key = None\<rparr>,
           \<lparr>permission_key = ''reports.export'', parent_key = Some ''reports''\<rparr>,
           \<lparr>permission_key = ''reports.export.csv'', parent_key = Some ''reports.export''\<rparr>]\<rparr>"

section \<open>The parameter validator: properties\<close>

text \<open>What the derivative matcher decides for the patterns with a repeated class.\<close>

lemma matches_NoString: "matches NoString w = False"
  by (induction w) auto

lemma matches_Or: "matches (Or r s) w = (matches r w \<or> matches s w)"
  by (induction w arbitrary: r s) auto

lemma matches_Then_NoString: "matches (Then NoString r) w = False"
  by (induction w) auto

lemma matches_Then_EmptyString: "matches (Then EmptyString r) w = matches r w"
  by (cases w) (auto simp: matches_Or matches_Then_NoString)

lemma matches_Then_Class:
  "matches (Then (Class cs) r) w = (case w of [] \<Rightarrow> False | c # w' \<Rightarrow> c \<in> set cs \<and> matches r w')"
  by (cases w) (auto simp: matches_Then_EmptyString matches_Then_NoString)

lemma matches_Times_Class:
  "matches (Times n (Class cs)) w = (length w = n \<and> set w \<subseteq> set cs)"
  unfolding Times_def
proof (induction n arbitrary: w)
  case 0
  then show ?case by (cases w) (auto simp: matches_NoString)
next
  case (Suc n)
  then show ?case by (cases w) (auto simp: matches_Then_Class simp del: matches.simps)
qed

lemma digest0_matches: "matches rx_sha256 digest0"
  unfolding rx_sha256_def hex_ci_def matches_Times_Class digest0_def by simp

lemma checkParameters_append:
  "checkParameters js (pre @ rest) ps =
     (case checkParameters js pre ps of
        (Return None, ps') \<Rightarrow> checkParameters js rest ps'
      | other \<Rightarrow> other)"
  by (induction pre arbitrary: ps) (auto split: option.splits)

text \<open>
  C7, as the code has it. The claim speaks of the original raw value; the code looks
  the value up after the coercion: the text of the raw value, trimmed, and replaced by
  the parsed number, boolean or JSON value where the type check passed (by the raw
  value itself where JSON gave null). For a specification with a type tag and a list
  of values to read as null, and a present value: if the coerced value is in the list,
  the parameter is accepted with null as its value, whether the type check passed or
  failed.
\<close>

theorem coerced_member_is_null:
  assumes "type_p parm = Some ty" and "interpretAsNull parm = Some ns"
    and "ps (key parm) = Some raw" and "raw \<noteq> JNull" and "raw \<noteq> JUndefined"
    and "typeSwitch js ty (js_trim (js_String js raw)) = (typeCheckPassed, v)"
    and "js_includes ns (if v = JNull then raw else v)"
  shows "checkParameter js parm ps = Some (verdict_ok JNull)"
proof -
  have "checkTyped js parm ty raw = verdict_ok JNull"
    using assms(2,6,7) by (simp add: checkTyped_def)
  then show ?thesis
    using assms(1,3,4,5) by (cases raw) (simp_all add: checkParameter_def)
qed

text \<open>
  At the integer parameter \<open>age\<close> with the empty string to read as null, and the empty
  string passed: the type check fails, and the parameter is accepted as null.
\<close>

theorem coerced_member_is_null_witness:
  "\<forall>js. typeSwitch js ''int'' (js_trim (js_String js (JStr ''''))) = (False, JStr '''')
        \<and> checkParameter js (age_spec [JStr '''']) [''age'' \<mapsto> JStr ''''] = Some (verdict_ok JNull)"
proof
  fix js
  have ts: "typeSwitch js ''int'' (js_trim (js_String js (JStr ''''))) = (False, JStr '''')"
    by (simp add: typeSwitch_def js_String_def js_trim_def rx_int_def OneOrMore_def digit_def)
  have inc: "js_includes [JStr ''''] (if JStr '''' = JNull then JStr '''' else JStr '''')"
    by (simp add: js_includes_def sameValueZero_def)
  show "typeSwitch js ''int'' (js_trim (js_String js (JStr ''''))) = (False, JStr '''')
        \<and> checkParameter js (age_spec [JStr '''']) [''age'' \<mapsto> JStr ''''] = Some (verdict_ok JNull)"
    using ts coerced_member_is_null [of "age_spec [JStr '''']" "''int''" "[JStr '''']"
        "[''age'' \<mapsto> JStr '''']" "JStr ''''" js False "JStr ''''", OF _ _ _ _ _ ts inc]
    by (simp add: age_spec_def)
qed

text \<open>
  C7 as stated fails. At the integer parameter \<open>age\<close> with the text \<open>0\<close> to read as
  null, the raw value \<open>0\<close> (a text, as a query string delivers it) is in the list, and
  the parameter is accepted with the number that \<open>parseInt\<close> returns, not with null:
  the number is looked up in the list, and a number is not a text.
\<close>

theorem raw_member_not_null:
  "\<forall>js. js_includes [JStr ''0''] (JStr ''0'')
        \<and> checkParameter js (age_spec [JStr ''0'']) [''age'' \<mapsto> JStr ''0'']
            = Some (verdict_ok (JNum (parseInt js ''0'')))
        \<and> verdict_ok (JNum (parseInt js ''0'')) \<noteq> verdict_ok JNull"
  by (simp add: checkParameter_def checkTyped_def age_spec_def typeSwitch_def js_String_def
      js_trim_def is_space_def rx_int_def OneOrMore_def digit_def js_includes_def sameValueZero_def
      rangeChecks_def violates_def verdict_ok_def)

text \<open>
  C10. The validator is not total. For a specification without a type tag and a
  parameter object in which the key is present with a value that is neither null nor
  undefined, \<open>checkParameter\<close> returns \<open>undefined\<close> (no verdict). \<open>canBeExecuted\<close> reads
  \<open>passed\<close> from that result, so it throws a TypeError as soon as its loop reaches
  such a specification: \<open>pre\<close> are the specifications before it, all of them passed.
\<close>

theorem untyped_parameter_undefined:
  assumes "type_p parm = None"
    and "ps' (key parm) = Some v" and "v \<noteq> JNull" and "v \<noteq> JUndefined"
    and "parameters m = pre @ parm # rest"
    and "checkParameters js pre ps = (Return None, ps')"
  shows "checkParameter js parm ps' = None
         \<and> canBeExecuted js t m ps ses = (Throw TypeError, ps')"
proof -
  have undef: "checkParameter js parm ps' = None"
    using assms(1-4) by (cases v) (simp_all add: checkParameter_def)
  have "checkParameters js (parameters m) ps = (Throw TypeError, ps')"
    using assms(5,6) undef by (simp add: checkParameters_append)
  then show ?thesis
    using undef by (simp add: canBeExecuted_def)
qed

text \<open>At the method \<open>/greet\<close>, called with \<open>name=x\<close>.\<close>

theorem untyped_parameter_undefined_witness:
  "\<forall>js. checkParameter js untyped_spec [''name'' \<mapsto> JStr ''x''] = None
        \<and> canBeExecuted js empty_tables greet_method [''name'' \<mapsto> JStr ''x''] None
            = (Throw TypeError, [''name'' \<mapsto> JStr ''x''])"
proof
  fix js
  have "type_p untyped_spec = None" and "key untyped_spec = ''name''"
    by (simp_all add: untyped_spec_def)
  moreover have "parameters greet_method = [] @ untyped_spec # []"
    by (simp add: greet_method_def)
  ultimately show "checkParameter js untyped_spec [''name'' \<mapsto> JStr ''x''] = None
        \<and> canBeExecuted js empty_tables greet_method [''name'' \<mapsto> JStr ''x''] None
            = (Throw TypeError, [''name'' \<mapsto> JStr ''x''])"
    using untyped_parameter_undefined
      [of untyped_spec "[''name'' \<mapsto> JStr ''x'']" "JStr ''x''" greet_method "[]" "[]" js
          "[''name'' \<mapsto> JStr ''x'']" empty_tables None]
    by simp
qed

section \<open>The authorization: properties\<close>

text \<open>
  C9. The required permission keys are enforced only when a session is present. For a
  method that does not require a session, a call without a session passes the
  authorization check, whatever the method's \<open>requireNoSession\<close> flag and list of
  required permissions are; in particular when the flag is false and the list is not
  empty. The permissions of no user are looked up.
\<close>

theorem anonymous_not_tested:
  assumes "\<not> requireSession m"
  shows "allowedToExecuteMethod t None m = Return verdict_passed \<and> passed verdict_passed"
  using assms by (simp add: allowedToExecuteMethod_def verdict_passed_def)

text \<open>
  At the method \<open>/greet\<close>, which requires the key \<open>greet\<close>, over tables that grant
  nothing to anybody: the anonymous call passes, the call of the logged-in user 1 is
  rejected.
\<close>

theorem anonymous_not_tested_witness:
  "\<not> requireSession greet_method
   \<and> requireNoSession greet_method = False
   \<and> requiredPermissions greet_method = Some [''greet'']
   \<and> allowedToExecuteMethod empty_tables None greet_method = Return verdict_passed
   \<and> passed verdict_passed
   \<and> allowedToExecuteMethod empty_tables (Some some_session) greet_method
       = Return (verdict_fail ''You do not have the necessary permissions to call this method''
                   PERMISSION_MISSING)"
proof -
  have anon: "\<not> requireSession greet_method"
    by (simp add: greet_method_def)
  have logged_in:
    "allowedToExecuteMethod empty_tables (Some some_session) greet_method
       = Return (verdict_fail ''You do not have the necessary permissions to call this method''
                   PERMISSION_MISSING)"
    by (simp add: allowedToExecuteMethod_def userHasPermissions_def getUserPermissions_def
        greet_method_def empty_tables_def grants_def)
  show ?thesis
    using anon anonymous_not_tested [OF anon, of empty_tables] logged_in
    by (simp add: greet_method_def)
qed

section \<open>The permission resolver: properties\<close>

lemma edges_children: "(p, c) \<in> edges rows \<longleftrightarrow> c \<in> set (children rows p)"
  by (induction rows) (auto simp: edges_def children_def split: option.splits)

lemma finite_edges: "finite (edges rows)"
  unfolding edges_def by (rule finite_set)

lemma descendant_closure_unfold:
  "descendant_closure rows p
     = (\<Union>c\<in>set (children rows p). insert c (descendant_closure rows c))"
proof -
  have "(p, x) \<in> (edges rows)\<^sup>+ \<longleftrightarrow>
        (\<exists>c. (p, c) \<in> edges rows \<and> (x = c \<or> (c, x) \<in> (edges rows)\<^sup>+))" for x
    by (metis converse_tranclE r_into_trancl' trancl_into_trancl2)
  then show ?thesis
    by (auto simp: descendant_closure_def edges_children)
qed

lemma descendant_closure_trans:
  "x \<in> descendant_closure rows k \<Longrightarrow> descendant_closure rows x \<subseteq> descendant_closure rows k"
  by (auto simp: descendant_closure_def intro: trancl_trans)

lemma set_pushNew: "set (pushNew result ds) = set result \<union> set ds"
  by (induction ds arbitrary: result) auto

lemma distinct_pushNew: "distinct result \<Longrightarrow> distinct (pushNew result ds)"
  by (induction ds arbitrary: result) auto

text \<open>
  The outer loop, when every key to visit is expanded to its descendant closure: it
  returns, and adds each key with its closure to a result that stays free of
  duplicates and closed under descent.
\<close>

lemma collect_closure:
  assumes "\<And>k. k \<in> set ks \<Longrightarrow>
             \<exists>ds. expand k = Some ds \<and> set ds = descendant_closure rows k"
    and "closed_under rows result" and "distinct result"
  shows "\<exists>res. collect expand ks result = Some res
           \<and> set res = set result \<union> (\<Union>k\<in>set ks. insert k (descendant_closure rows k))
           \<and> distinct res \<and> closed_under rows res"
  using assms
proof (induction ks arbitrary: result)
  case Nil
  then show ?case by simp
next
  case (Cons k ks)
  show ?case
  proof (cases "k \<in> set result")
    case True
    then have sub: "insert k (descendant_closure rows k) \<subseteq> set result"
      using Cons.prems(2) by (auto simp: closed_under_def)
    obtain res where "collect expand ks result = Some res"
      "set res = set result \<union> (\<Union>k\<in>set ks. insert k (descendant_closure rows k))"
      "distinct res" "closed_under rows res"
      using Cons.IH [of result] Cons.prems by auto
    then show ?thesis
      using True sub by auto
  next
    case False
    obtain ds where ds: "expand k = Some ds" "set ds = descendant_closure rows k"
      using Cons.prems(1) [of k] by auto
    let ?r = "pushNew (result @ [k]) ds"
    have set_r: "set ?r = set result \<union> insert k (descendant_closure rows k)"
      using ds by (auto simp: set_pushNew)
    have "distinct ?r"
      using False Cons.prems(3) by (simp add: distinct_pushNew)
    moreover have "closed_under rows ?r"
      unfolding closed_under_def set_r
      using Cons.prems(2) descendant_closure_trans [of _ rows k] by (auto simp: closed_under_def)
    ultimately obtain res where "collect expand ks ?r = Some res"
      "set res = set ?r \<union> (\<Union>k\<in>set ks. insert k (descendant_closure rows k))"
      "distinct res" "closed_under rows res"
      using Cons.IH [of ?r] Cons.prems(1) by auto
    then show ?thesis
      using False ds set_r by auto
  qed
qed

lemma cycle_free_descendant:
  assumes "cycle_free rows k" and "x \<in> descendant_closure rows k"
  shows "cycle_free rows x"
proof -
  have "insert x (descendant_closure rows x) \<subseteq> insert k (descendant_closure rows k)"
    using assms(2) descendant_closure_trans [OF assms(2)] by blast
  then show ?thesis
    using assms(1) unfolding cycle_free_def by blast
qed

lemma acyclic_cycle_free:
  assumes "acyclic (edges rows)"
  shows "cycle_free rows p"
  using assms unfolding cycle_free_def descendant_closure_def acyclic_def by simp

text \<open>
  From a key that reaches no cycle the recursion is well founded: a call for a key
  calls itself for children of the key only, and the edges below the key have no
  cycle. By induction along these edges, every call below the key returns the
  descendant closure of its key, each key once.
\<close>

lemma cycle_free_returns:
  assumes "cycle_free rows p"
  shows "\<exists>ds. getPermissionDecendants rows p = Some ds
           \<and> set ds = descendant_closure rows p \<and> distinct ds"
proof -
  define R where "R = insert p (descendant_closure rows p)"
  define r where "r = {(x, c). (x, c) \<in> edges rows \<and> x \<in> R}"
  have sub: "r \<subseteq> edges rows" unfolding r_def by blast
  have step: "c \<in> R" if "(x, c) \<in> edges rows" "x \<in> R" for x c
    using that unfolding R_def descendant_closure_def
    by (auto intro: trancl_into_trancl)
  have inR: "x \<in> R" if "(x, c) \<in> r\<^sup>+" for x c
    using that by (induction rule: trancl_induct) (simp_all add: r_def)
  have "acyclic r"
  proof (rule acyclicI, rule allI, rule notI)
    fix x assume c: "(x, x) \<in> r\<^sup>+"
    then have "(x, x) \<in> (edges rows)\<^sup>+"
      using trancl_mono [OF _ sub] by blast
    then have "x \<in> descendant_closure rows x"
      by (simp add: descendant_closure_def)
    moreover have "x \<in> R" using inR [OF c] .
    ultimately show False
      using assms unfolding cycle_free_def R_def by blast
  qed
  moreover have "finite r"
    using finite_subset [OF sub finite_edges] .
  ultimately have "wf (r\<inverse>)"
    by (rule finite_acyclic_wf_converse [rotated])
  then have "q \<in> R \<longrightarrow> (\<exists>ds. getPermissionDecendants rows q = Some ds
           \<and> set ds = descendant_closure rows q \<and> distinct ds)" for q
  proof (induction q rule: wf_induct_rule)
    case (less q)
    show ?case
    proof
      assume q: "q \<in> R"
      have kids: "\<exists>ds. getPermissionDecendants rows c = Some ds \<and> set ds = descendant_closure rows c"
        if "c \<in> set (children rows q)" for c
      proof -
        have e: "(q, c) \<in> edges rows" using that by (simp add: edges_children)
        then have "(c, q) \<in> r\<inverse>" using q by (simp add: r_def)
        moreover have "c \<in> R" using step [OF e q] .
        ultimately show ?thesis using less [of c] by blast
      qed
      have empty: "closed_under rows []" "distinct ([] :: string list)"
        by (simp_all add: closed_under_def)
      from collect_closure
        [of "children rows q" "getPermissionDecendants rows" rows "[]", OF kids empty]
      obtain res where
        "collect (getPermissionDecendants rows) (children rows q) [] = Some res"
        "set res = (\<Union>c\<in>set (children rows q). insert c (descendant_closure rows c))"
        "distinct res"
        by auto
      then show "\<exists>ds. getPermissionDecendants rows q = Some ds
           \<and> set ds = descendant_closure rows q \<and> distinct ds"
        by (subst getPermissionDecendants.simps) (simp add: descendant_closure_unfold [of rows q])
    qed
  qed
  then show ?thesis by (simp add: R_def)
qed

text \<open>
  Conversely, whatever the outer loop returns holds keys that reach no cycle only, when
  this holds of every expansion that returned; and so a call of the traversal that
  returns was made for a key that reaches no cycle. The induction is over the
  unfolding of the recursion.
\<close>

lemma collect_returned:
  assumes "collect expand ks result = Some res"
    and "\<And>k y. expand k = Some y \<Longrightarrow> set y = descendant_closure rows k \<and> cycle_free rows k"
    and "closed_under rows result" and "\<forall>x\<in>set result. cycle_free rows x"
  shows "set res = set result \<union> (\<Union>k\<in>set ks. insert k (descendant_closure rows k))
         \<and> (\<forall>x\<in>set res. cycle_free rows x)"
  using assms
proof (induction ks arbitrary: result)
  case Nil
  then show ?case by simp
next
  case (Cons k ks)
  show ?case
  proof (cases "k \<in> set result")
    case True
    then have sub: "insert k (descendant_closure rows k) \<subseteq> set result"
      using Cons.prems(3) unfolding closed_under_def by blast
    have "collect expand ks result = Some res"
      using Cons.prems(1) True by simp
    from Cons.IH [OF this Cons.prems(2) Cons.prems(3) Cons.prems(4)]
    have "set res = set result \<union> (\<Union>k\<in>set ks. insert k (descendant_closure rows k))"
      and good: "\<forall>x\<in>set res. cycle_free rows x"
      by blast+
    then have "set res = set result \<union> (\<Union>k\<in>set (k # ks). insert k (descendant_closure rows k))"
      using sub by auto
    then show ?thesis using good by blast
  next
    case False
    then obtain ds where ds: "expand k = Some ds"
      and rest: "collect expand ks (pushNew (result @ [k]) ds) = Some res"
      using Cons.prems(1) by (cases "expand k") simp_all
    have k: "set ds = descendant_closure rows k" "cycle_free rows k"
      using Cons.prems(2) [OF ds] by blast+
    let ?r = "pushNew (result @ [k]) ds"
    have set_r: "set ?r = set result \<union> insert k (descendant_closure rows k)"
      using k(1) by (simp add: set_pushNew)
    have closed: "closed_under rows ?r"
      unfolding closed_under_def set_r
      using Cons.prems(3) descendant_closure_trans [of _ rows k]
      unfolding closed_under_def by blast
    have good: "\<forall>x\<in>set ?r. cycle_free rows x"
      unfolding set_r using Cons.prems(4) k(2) cycle_free_descendant [of rows k] by blast
    from Cons.IH [OF rest Cons.prems(2) closed good]
    have "set res = set ?r \<union> (\<Union>k\<in>set ks. insert k (descendant_closure rows k))"
      and good': "\<forall>x\<in>set res. cycle_free rows x"
      by blast+
    then have "set res = set result \<union> (\<Union>k\<in>set (k # ks). insert k (descendant_closure rows k))"
      unfolding set_r by auto
    then show ?thesis using good' by blast
  qed
qed

lemma returned_cycle_free:
  assumes "getPermissionDecendants rows p = Some y"
  shows "set y = descendant_closure rows p \<and> cycle_free rows p"
proof (rule getPermissionDecendants.raw_induct
    [where P = "\<lambda>rows p y. set y = descendant_closure rows p \<and> cycle_free rows p", OF _ assms])
  fix f :: "permission_row list \<Rightarrow> string \<Rightarrow> string list option"
  fix rows p z
  assume IH: "\<And>rows p y. f rows p = Some y \<Longrightarrow> set y = descendant_closure rows p \<and> cycle_free rows p"
    and step: "collect (f rows) (children rows p) [] = Some z"
  have empty: "closed_under rows []" "\<forall>x\<in>set []. cycle_free rows x"
    by (simp_all add: closed_under_def)
  from collect_returned [OF step IH empty]
  have z: "set z = (\<Union>c\<in>set (children rows p). insert c (descendant_closure rows c))"
    and good: "\<forall>x\<in>set z. cycle_free rows x"
    by simp_all
  have setz: "set z = descendant_closure rows p"
    using z by (simp add: descendant_closure_unfold [of rows p])
  have below: "c \<notin> descendant_closure rows c" if "c \<in> descendant_closure rows p" for c
    using good setz that unfolding cycle_free_def by blast
  have "p \<notin> descendant_closure rows p"
    using below [of p] by blast
  then have "cycle_free rows p"
    using below unfolding cycle_free_def by blast
  then show "set z = descendant_closure rows p \<and> cycle_free rows p"
    using setz by simp
qed

text \<open>
  The same for the permissions of a user: the loop over the granted keys returns
  exactly when no granted key reaches a cycle.
\<close>

lemma granted_returns:
  assumes "\<forall>k\<in>set ks. cycle_free rows k"
  shows "\<exists>res. collect (getPermissionDecendants rows) ks [] = Some res
           \<and> set res = (\<Union>k\<in>set ks. insert k (descendant_closure rows k))
           \<and> distinct res"
proof -
  have kids: "\<exists>ds. getPermissionDecendants rows k = Some ds \<and> set ds = descendant_closure rows k"
    if "k \<in> set ks" for k
    using cycle_free_returns [of rows k] assms that by blast
  have empty: "closed_under rows []" "distinct ([] :: string list)"
    by (simp_all add: closed_under_def)
  from collect_closure [of ks "getPermissionDecendants rows" rows "[]", OF kids empty]
  show ?thesis by auto
qed

lemma granted_returned:
  assumes "collect (getPermissionDecendants rows) ks [] = Some res"
  shows "\<forall>k\<in>set ks. cycle_free rows k"
proof -
  have empty: "closed_under rows []" "\<forall>x\<in>set []. cycle_free rows x"
    by (simp_all add: closed_under_def)
  from collect_returned [OF assms returned_cycle_free empty]
  have "set res = (\<Union>k\<in>set ks. insert k (descendant_closure rows k))"
    and "\<forall>x\<in>set res. cycle_free rows x"
    by simp_all
  then show ?thesis by blast
qed

text \<open>
  On the cyclic hierarchy the call for \<open>a\<close> calls itself for \<open>b\<close>, and that call for
  \<open>a\<close> again: no call for either key returns.
\<close>

lemma cyclic_never_returns: "getPermissionDecendants cyclic_rows ''a'' = None"
proof (rule ccontr)
  assume "getPermissionDecendants cyclic_rows ''a'' \<noteq> None"
  then obtain y where y: "getPermissionDecendants cyclic_rows ''a'' = Some y"
    by auto
  have "cyclic_rows = cyclic_rows \<longrightarrow> ''a'' \<noteq> ''a'' \<and> ''a'' \<noteq> ''b''"
  proof (rule getPermissionDecendants.raw_induct
      [where P = "\<lambda>rows p y. rows = cyclic_rows \<longrightarrow> p \<noteq> ''a'' \<and> p \<noteq> ''b''", OF _ y])
    fix f :: "permission_row list \<Rightarrow> string \<Rightarrow> string list option"
    fix rows p z
    assume IH: "\<And>rows p y. f rows p = Some y \<Longrightarrow> rows = cyclic_rows \<longrightarrow> p \<noteq> ''a'' \<and> p \<noteq> ''b''"
      and step: "collect (f rows) (children rows p) [] = Some z"
    show "rows = cyclic_rows \<longrightarrow> p \<noteq> ''a'' \<and> p \<noteq> ''b''"
    proof (intro impI conjI notI)
      assume "rows = cyclic_rows" and "p = ''a''"
      then have "\<exists>ds. f cyclic_rows ''b'' = Some ds"
        using step by (auto simp: children_def cyclic_rows_def split: bind_splits)
      then show False using IH by blast
    next
      assume "rows = cyclic_rows" and "p = ''b''"
      then have "\<exists>ds. f cyclic_rows ''a'' = Some ds"
        using step by (auto simp: children_def cyclic_rows_def split: bind_splits)
      then show False using IH by blast
    qed
  qed
  then show False by simp
qed

lemma cyclic_user_hangs: "getUserPermissions cyclic_tables (Some 1) = Hang"
  by (simp add: getUserPermissions_def cyclic_tables_def empty_tables_def grants_def
      cyclic_never_returns)

lemma acyclic_by_rank:
  assumes "\<And>a b. (a, b) \<in> r \<Longrightarrow> f a < (f b :: nat)"
  shows "acyclic r"
proof -
  have "r \<subseteq> measure f"
    using assms by auto
  then have "wf r"
    using wf_subset [OF wf_measure] by blast
  then show ?thesis
    by (rule wf_acyclic)
qed

lemma reports_acyclic: "acyclic (edges (api_permissions reports_tables))"
  by (rule acyclic_by_rank [where f = length]) (auto simp: reports_tables_def edges_def)

text \<open>
  C5, as the code has it. For an absent user identifier \<open>getUserPermissions\<close> returns
  null, not an empty list. For a present user none of whose granted keys reaches a
  cycle, as on every hierarchy without a cycle, it returns a list that holds exactly
  the keys granted to the user together with the descendant closure of each of them,
  and holds no key twice.
\<close>

theorem user_permissions_closure:
  assumes "\<forall>k\<in>set (grants (api_user_permissions t) u). cycle_free (api_permissions t) k"
  shows "getUserPermissions t None = Return None
         \<and> (\<exists>ks. getUserPermissions t (Some u) = Return (Some ks)
                \<and> set ks = (\<Union>k\<in>set (grants (api_user_permissions t) u).
                              insert k (descendant_closure (api_permissions t) k))
                \<and> distinct ks)"
proof -
  from granted_returns [OF assms]
  obtain res where
    "collect (getPermissionDecendants (api_permissions t)) (grants (api_user_permissions t) u) []
       = Some res"
    "set res = (\<Union>k\<in>set (grants (api_user_permissions t) u).
                  insert k (descendant_closure (api_permissions t) k))"
    "distinct res"
    by blast
  then show ?thesis
    by (simp add: getUserPermissions_def)
qed

text \<open>
  At the hierarchy of the reports, which has no cycle: the user 1, granted \<open>reports\<close>
  and \<open>reports.export\<close>, holds the three keys, each once.
\<close>

theorem user_permissions_closure_witness:
  "grants (api_user_permissions reports_tables) 1 = [''reports'', ''reports.export'']
   \<and> cycle_free (api_permissions reports_tables) ''reports''
   \<and> cycle_free (api_permissions reports_tables) ''reports.export''
   \<and> getUserPermissions reports_tables None = Return None
   \<and> getUserPermissions reports_tables (Some 1)
       = Return (Some [''reports'', ''reports.export'', ''reports.export.csv''])
   \<and> set [''reports'', ''reports.export'', ''reports.export.csv'']
       = (\<Union>k\<in>set (grants (api_user_permissions reports_tables) 1).
            insert k (descendant_closure (api_permissions reports_tables) k))"
proof -
  have granted: "grants (api_user_permissions reports_tables) 1 = [''reports'', ''reports.export'']"
    by (simp add: reports_tables_def empty_tables_def grants_def)
  have free: "cycle_free (api_permissions reports_tables) k" for k
    using acyclic_cycle_free [OF reports_acyclic] .
  have run: "getUserPermissions reports_tables (Some 1)
          = Return (Some [''reports'', ''reports.export'', ''reports.export.csv''])"
    by (simp add: getUserPermissions_def getPermissionDecendants.simps reports_tables_def
        empty_tables_def grants_def children_def)
  have "\<forall>k\<in>set (grants (api_user_permissions reports_tables) 1).
      cycle_free (api_permissions reports_tables) k"
    using free by blast
  from user_permissions_closure [OF this] run granted free
  show ?thesis
    by auto
qed

text \<open>
  C5 as stated fails twice. For the absent user the function returns null, which is
  not the empty list; and for the user 1 of the cyclic hierarchy, who is granted \<open>a\<close>,
  it returns no list at all, since it never returns.
\<close>

theorem absent_user_null_and_cycle_hangs:
  "getUserPermissions cyclic_tables None = Return None
   \<and> getUserPermissions cyclic_tables None \<noteq> Return (Some [])
   \<and> (\<nexists>ks. getUserPermissions cyclic_tables (Some 1) = Return (Some ks))"
  using cyclic_user_hangs by (simp add: getUserPermissions_def)

text \<open>
  C6, as the code has it. The traversal returns for a key exactly when no cycle can be
  reached from the key, and the permissions of a user are returned exactly when no
  cycle can be reached from a key granted to the user. So both operations return on
  every hierarchy without a cycle, and that is all: the code keeps no record of the
  keys under expansion.
\<close>

theorem resolution_returns_iff_cycle_free:
  "(getPermissionDecendants (api_permissions t) p \<noteq> None
      \<longleftrightarrow> cycle_free (api_permissions t) p)
   \<and> (getUserPermissions t (Some u) \<noteq> Hang
      \<longleftrightarrow> (\<forall>k\<in>set (grants (api_user_permissions t) u). cycle_free (api_permissions t) k))
   \<and> getUserPermissions t None \<noteq> Hang
   \<and> (acyclic (edges (api_permissions t))
      \<longrightarrow> getPermissionDecendants (api_permissions t) p \<noteq> None
          \<and> getUserPermissions t (Some u) \<noteq> Hang)"
proof -
  let ?rows = "api_permissions t"
  let ?ks = "grants (api_user_permissions t) u"
  have one: "getPermissionDecendants ?rows p \<noteq> None \<longleftrightarrow> cycle_free ?rows p"
    using returned_cycle_free [of ?rows p] cycle_free_returns [of ?rows p] by auto
  have "collect (getPermissionDecendants ?rows) ?ks [] \<noteq> None
          \<longleftrightarrow> (\<forall>k\<in>set ?ks. cycle_free ?rows k)"
    using granted_returns [of ?ks ?rows] granted_returned [of ?rows ?ks] by auto
  moreover have "getUserPermissions t (Some u) \<noteq> Hang
          \<longleftrightarrow> collect (getPermissionDecendants ?rows) ?ks [] \<noteq> None"
    by (cases "collect (getPermissionDecendants ?rows) ?ks []")
      (simp_all add: getUserPermissions_def)
  ultimately have two:
    "getUserPermissions t (Some u) \<noteq> Hang \<longleftrightarrow> (\<forall>k\<in>set ?ks. cycle_free ?rows k)"
    by blast
  have three: "getUserPermissions t None \<noteq> Hang"
    by (simp add: getUserPermissions_def)
  have four: "getPermissionDecendants ?rows p \<noteq> None \<and> getUserPermissions t (Some u) \<noteq> Hang"
    if "acyclic (edges ?rows)"
    using one two acyclic_cycle_free [OF that] by blast
  show ?thesis
    using one two three four by blast
qed

text \<open>
  At the hierarchy of the reports, whose edges lead to longer keys: the traversal from
  \<open>reports\<close> returns its two descendants, so no cycle is reached from \<open>reports\<close>.
\<close>

theorem resolution_returns_iff_cycle_free_witness:
  "acyclic (edges (api_permissions reports_tables))
   \<and> getPermissionDecendants (api_permissions reports_tables) ''reports''
       = Some [''reports.export'', ''reports.export.csv'']
   \<and> cycle_free (api_permissions reports_tables) ''reports''
   \<and> getUserPermissions reports_tables (Some 1) \<noteq> Hang"
proof -
  have "getPermissionDecendants (api_permissions reports_tables) ''reports''
          = Some [''reports.export'', ''reports.export.csv'']"
    by (simp add: getPermissionDecendants.simps reports_tables_def children_def)
  then show ?thesis
    using reports_acyclic
      resolution_returns_iff_cycle_free [of reports_tables "''reports''" 1]
    by simp
qed

text \<open>
  C6 as stated fails: on the cyclic hierarchy the descendants of \<open>a\<close> are never
  returned, and neither are the permissions of the user who is granted \<open>a\<close>.
\<close>

theorem cyclic_hierarchy_never_returns:
  "getPermissionDecendants cyclic_rows ''a'' = None
   \<and> getUserPermissions cyclic_tables (Some 1) = Hang"
  using cyclic_never_returns cyclic_user_hangs by simp

section \<open>The execution pipeline: properties\<close>

lemma tryExecuteMethod_executed:
  assumes "canBeExecuted js (current d) m ps ses = (Return v, ps')" and "passed v"
    and "execute m ps' rq ses d = (x, d')"
  shows "tryExecuteMethod js m ps ses rq d
           = ((case x of
                 Resolved r \<Rightarrow> Return r
               | Rejected c \<Rightarrow> Throw ReferenceError
               | Pending \<Rightarrow> Hang), ps', d')"
  using assms by (simp add: tryExecuteMethod_def split: settled.splits)

lemma tryExecuteMethod_refused:
  assumes "canBeExecuted js (current d) m ps ses = (Return v, ps')" and "\<not> passed v"
  shows "tryExecuteMethod js m ps ses rq d = (Return (error_r (reason v) (errorCode v) None), ps', d)"
  using assms by (simp add: tryExecuteMethod_def)

lemma current_db0: "current db0 = empty_tables"
  by (simp add: db0_def)

text \<open>The method \<open>/orders/create\<close> over the empty tables.\<close>

lemma order_can:
  "canBeExecuted js empty_tables order_method ps None = (Return verdict_passed, ps)"
  by (simp add: canBeExecuted_def order_method_def allowedToExecuteMethod_def verdict_passed_def)

lemma order_execute:
  "execute order_method ps rq0 ses db0
     = (Rejected METHOD_ERROR, \<lparr>current = empty_tables, saved = None, calls = [Begin, Rollback]\<rparr>)"
  by (simp add: execute_def order_method_def create_order_def queries_def
      startTransaction_def rollback_def db0_def)

text \<open>A login under the name \<open>mallory\<close> over the empty tables.\<close>

lemma login_can:
  "canBeExecuted js empty_tables (login_method env) login_parms None
     = (Return verdict_passed, login_parms)"
proof -
  have v1: "checkParameter js (string_spec ''username'' ''string'') login_parms
              = Some (verdict_ok (JStr ''mallory''))"
    by (simp add: checkParameter_def checkTyped_def string_spec_def login_parms_def
        typeSwitch_def js_String_def js_trim_def is_space_def rangeChecks_def violates_def)
  have v2: "checkParameter js (string_spec ''password_hash'' ''sha256'') login_parms
              = Some (verdict_ok (JStr digest0))"
    using digest0_matches
    by (simp add: checkParameter_def checkTyped_def string_spec_def login_parms_def
        typeSwitch_def js_String_def js_trim_def is_space_def rangeChecks_def violates_def
        digest0_def)
  have upd: "login_parms(''username'' \<mapsto> JStr ''mallory'') = login_parms"
    "login_parms(''password_hash'' \<mapsto> JStr digest0) = login_parms"
    by (auto simp: login_parms_def)
  have keys: "key (string_spec k ty) = k" for k ty
    by (simp add: string_spec_def)
  show ?thesis
    by (simp add: canBeExecuted_def login_method_def v1 v2 upd keys verdict_ok_def
        allowedToExecuteMethod_def verdict_passed_def)
qed

lemma login_run:
  "login env login_parms None rq0 empty_tables
     = (Returned (error_r (Some ''User not found'') None None), empty_tables)"
  by (simp add: login_def checkCredentials_def login_parms_def empty_tables_def)

lemma login_unknown:
  "tryExecuteMethod js (login_method env) login_parms None rq0 db0
     = (Return (error_r (Some ''User not found'') None None), login_parms,
        \<lparr>current = empty_tables, saved = None, calls = [Begin, Rollback]\<rparr>)"
proof -
  have ex: "execute (login_method env) login_parms rq0 None db0
              = (Resolved (error_r (Some ''User not found'') None None),
                 \<lparr>current = empty_tables, saved = None, calls = [Begin, Rollback]\<rparr>)"
    by (simp add: execute_def login_method_def queries_def db0_def startTransaction_def
        login_run error_r_def dropEmpty_def rollback_def)
  show ?thesis
    by (simp add: tryExecuteMethod_def current_db0 login_can ex verdict_passed_def)
qed

text \<open>A logout of the session 7.\<close>

lemma logout_can:
  "canBeExecuted js (current db1) logout_method ps (Some some_session)
     = (Return verdict_passed, ps)"
  by (simp add: canBeExecuted_def logout_method_def allowedToExecuteMethod_def
      userHasPermissions_def verdict_passed_def)

lemma logout_run:
  "logout ps (Some some_session) rq0 (current db1)
     = (Returned (successSession JNull None), logged_out_tables)"
  by (simp add: logout_def deleteSession_def db1_def logged_out_tables_def session_tables_def
      some_session_def)

lemma logout_tryExecute:
  "tryExecuteMethod js logout_method ps (Some some_session) rq0 db1
     = (Return logout_response, ps,
        \<lparr>current = logged_out_tables, saved = None, calls = [Begin, Commit]\<rparr>)"
proof -
  have "handler logout_method ps (Some some_session) rq0 (startTransaction db1)
          = (Returned (successSession JNull None),
             (startTransaction db1)\<lparr>current := logged_out_tables\<rparr>)"
    using logout_run [of ps]
    by (simp add: logout_method_def queries_def startTransaction_def)
  then have ex: "execute logout_method ps rq0 (Some some_session) db1
              = (Resolved logout_response,
                 \<lparr>current = logged_out_tables, saved = None, calls = [Begin, Commit]\<rparr>)"
    by (simp add: execute_def successSession_def dropEmpty_def startTransaction_def commit_def
        db1_def logout_response_def logout_method_def)
  show ?thesis
    using tryExecuteMethod_executed [OF logout_can _ ex] by (simp add: verdict_passed_def)
qed

text \<open>
  C1, where the code departs from it. When the parameters and the caller pass the
  checks and the handler throws, \<open>tryExecuteMethod\<close> does not return a response of the
  kind \<open>METHOD_ERROR\<close>: it throws a ReferenceError itself, out of the callback that
  was to build that response.
\<close>

theorem handler_failure_escapes:
  assumes "canBeExecuted js (current d) m ps ses = (Return v, ps')" and "passed v"
    and "fst (handler m ps' ses rq (if transaction m then startTransaction d else d)) = Threw"
  shows "fst (tryExecuteMethod js m ps ses rq d) = Throw ReferenceError"
  using assms
  by (auto simp: tryExecuteMethod_def execute_def Let_def split: prod.splits handler_outcome.splits)

text \<open>
  At the method \<open>/orders/create\<close>: the transaction is rolled back, the error leaves
  \<open>tryExecuteMethod\<close>, and the client is answered with \<open>HANDLER_ERROR\<close>.
\<close>

theorem handler_failure_escapes_witness:
  "\<forall>js. tryExecuteMethod js order_method Map.empty None rq0 db0
          = (Throw ReferenceError, Map.empty,
             \<lparr>current = empty_tables, saved = None, calls = [Begin, Rollback]\<rparr>)
        \<and> methodHandlerWrapper js order_method Map.empty None rq0 db0
          = (Some (error_r (Some ''An Error occured while handling your request.'')
                     (Some HANDLER_ERROR) None),
             \<lparr>current = empty_tables, saved = None, calls = [Begin, Rollback]\<rparr>)"
proof
  fix js
  let ?d = "\<lparr>current = empty_tables, saved = None, calls = [Begin, Rollback]\<rparr>"
  have thrown: "fst (handler order_method Map.empty None rq0
                  (if transaction order_method then startTransaction db0 else db0)) = Threw"
    by (simp add: order_method_def create_order_def queries_def)
  have "fst (tryExecuteMethod js order_method Map.empty None rq0 db0) = Throw ReferenceError"
    using handler_failure_escapes [of js db0 order_method Map.empty None verdict_passed Map.empty rq0]
      order_can thrown
    by (simp add: current_db0 verdict_passed_def)
  moreover have "snd (tryExecuteMethod js order_method Map.empty None rq0 db0) = (Map.empty, ?d)"
    using tryExecuteMethod_executed [of js db0 order_method Map.empty None verdict_passed Map.empty rq0]
      order_can order_execute
    by (simp add: current_db0 verdict_passed_def)
  ultimately have run: "tryExecuteMethod js order_method Map.empty None rq0 db0
          = (Throw ReferenceError, Map.empty, ?d)"
    by (simp add: prod_eq_iff)
  then show "tryExecuteMethod js order_method Map.empty None rq0 db0
          = (Throw ReferenceError, Map.empty, ?d)
        \<and> methodHandlerWrapper js order_method Map.empty None rq0 db0
          = (Some (error_r (Some ''An Error occured while handling your request.'')
                     (Some HANDLER_ERROR) None), ?d)"
    by (simp add: methodHandlerWrapper_def makeClientResponse_def error_r_def dropEmpty_def)
qed

text \<open>
  C2, as the code has it. For a transactional method whose handler only queries, called
  with parameters and a session that pass the checks: the transaction is begun before
  the handler runs; it is committed, and what the handler wrote is kept, exactly when
  the handler returns a response that reports success; when the handler returns an
  unsuccessful response the transaction is rolled back, the tables are as they were, and
  the caller receives that response as the handler built it; when the handler throws,
  the transaction is rolled back, the tables are as they were, and \<open>execute\<close> rejects with
  \<open>METHOD_ERROR\<close>.
\<close>

theorem transactional_execute:
  assumes "transaction m" and "handler m = queries h"
    and "canBeExecuted js (current d) m ps ses = (Return v, ps')" and "passed v"
    and "h ps' ses rq (current d) = (out, t')"
  shows "(\<forall>r. out = Returned r \<and> success r \<longrightarrow>
            tryExecuteMethod js m ps ses rq d
              = (Return (r\<lparr>data := dropEmpty (data r)\<rparr>), ps',
                 \<lparr>current = t', saved = None, calls = calls d @ [Begin, Commit]\<rparr>))
       \<and> (\<forall>r. out = Returned r \<and> \<not> success r \<longrightarrow>
            tryExecuteMethod js m ps ses rq d
              = (Return (r\<lparr>data := dropEmpty (data r)\<rparr>), ps',
                 \<lparr>current = current d, saved = None, calls = calls d @ [Begin, Rollback]\<rparr>))
       \<and> (out = Threw \<longrightarrow>
            execute m ps' rq ses d
              = (Rejected METHOD_ERROR,
                 \<lparr>current = current d, saved = None, calls = calls d @ [Begin, Rollback]\<rparr>))"
  using assms
  by (auto simp: tryExecuteMethod_def execute_def queries_def startTransaction_def commit_def
      rollback_def)

text \<open>
  At three calls: the logout of the session 7, which succeeds and is committed; the
  login under an unknown name, which the handler refuses and which is rolled back; and
  \<open>/orders/create\<close>, whose handler throws after a write that is rolled back.
\<close>

theorem transactional_execute_witness:
  "\<forall>js env.
     tryExecuteMethod js logout_method Map.empty (Some some_session) rq0 db1
       = (Return logout_response, Map.empty,
          \<lparr>current = logged_out_tables, saved = None, calls = [Begin, Commit]\<rparr>)
     \<and> tryExecuteMethod js (login_method env) login_parms None rq0 db0
       = (Return (error_r (Some ''User not found'') None None), login_parms,
          \<lparr>current = empty_tables, saved = None, calls = [Begin, Rollback]\<rparr>)
     \<and> execute order_method Map.empty rq0 None db0
       = (Rejected METHOD_ERROR,
          \<lparr>current = empty_tables, saved = None, calls = [Begin, Rollback]\<rparr>)"
proof (intro allI)
  fix js env
  have a: "tryExecuteMethod js logout_method Map.empty (Some some_session) rq0 db1
       = (Return logout_response, Map.empty,
          \<lparr>current = logged_out_tables, saved = None, calls = [Begin, Commit]\<rparr>)"
    using transactional_execute [of logout_method logout js db1 Map.empty
        "Some some_session" verdict_passed Map.empty rq0 _ logged_out_tables,
        OF _ _ logout_can _ logout_run]
    by (simp add: logout_method_def verdict_passed_def successSession_def logout_response_def
        dropEmpty_def db1_def)
  have b: "tryExecuteMethod js (login_method env) login_parms None rq0 db0
       = (Return (error_r (Some ''User not found'') None None), login_parms,
          \<lparr>current = empty_tables, saved = None, calls = [Begin, Rollback]\<rparr>)"
    using transactional_execute [of "login_method env" "login env" js db0 login_parms
        None verdict_passed login_parms rq0 _ empty_tables] login_can [of js env] login_run [of env]
    by (simp add: login_method_def verdict_passed_def error_r_def dropEmpty_def db0_def)
  have c: "execute order_method Map.empty rq0 None db0
       = (Rejected METHOD_ERROR,
          \<lparr>current = empty_tables, saved = None, calls = [Begin, Rollback]\<rparr>)"
    using transactional_execute [of order_method create_order js db0 Map.empty
        None verdict_passed Map.empty rq0 Threw
        "empty_tables\<lparr>app_rows := app_rows empty_tables @ [(''order'', JStr ''half written'')]\<rparr>"]
      order_can [of js Map.empty]
    by (simp add: order_method_def verdict_passed_def create_order_def db0_def)
  show "tryExecuteMethod js logout_method Map.empty (Some some_session) rq0 db1
       = (Return logout_response, Map.empty,
          \<lparr>current = logged_out_tables, saved = None, calls = [Begin, Commit]\<rparr>)
     \<and> tryExecuteMethod js (login_method env) login_parms None rq0 db0
       = (Return (error_r (Some ''User not found'') None None), login_parms,
          \<lparr>current = empty_tables, saved = None, calls = [Begin, Rollback]\<rparr>)
     \<and> execute order_method Map.empty rq0 None db0
       = (Rejected METHOD_ERROR,
          \<lparr>current = empty_tables, saved = None, calls = [Begin, Rollback]\<rparr>)"
    using a b c by simp
qed

text \<open>
  C2 as stated fails: a login under a name that no user has is a call of a
  transactional method whose handler does not report success; the transaction is
  rolled back, and the caller receives the handler's own response, which carries no
  code and so is not a \<open>METHOD_ERROR\<close> failure.
\<close>

theorem login_refusal_is_not_method_error:
  "\<forall>js env. \<exists>r ps' d'.
      transaction (login_method env)
      \<and> tryExecuteMethod js (login_method env) login_parms None rq0 db0 = (Return r, ps', d')
      \<and> \<not> success r \<and> code r \<noteq> Some METHOD_ERROR
      \<and> calls d' = [Begin, Rollback]"
proof (intro allI)
  fix js env
  have "transaction (login_method env)"
    by (simp add: login_method_def)
  moreover have "\<not> success (error_r (Some ''User not found'') None None)"
    "code (error_r (Some ''User not found'') None None) \<noteq> Some METHOD_ERROR"
    by (simp_all add: error_r_def)
  ultimately show "\<exists>r ps' d'.
      transaction (login_method env)
      \<and> tryExecuteMethod js (login_method env) login_parms None rq0 db0 = (Return r, ps', d')
      \<and> \<not> success r \<and> code r \<noteq> Some METHOD_ERROR
      \<and> calls d' = [Begin, Rollback]"
    using login_unknown [of js env] by simp
qed

section \<open>The multicall: properties\<close>

lemma whoami_tryExecute_session:
  "tryExecuteMethod js whoami_method ps (Some some_session) rq0 d
     = (Return (success_r (JNum (Fin 1))), ps, d)"
proof -
  have can: "canBeExecuted js (current d) whoami_method ps (Some some_session)
               = (Return verdict_passed, ps)"
    by (simp add: canBeExecuted_def whoami_method_def allowedToExecuteMethod_def
        userHasPermissions_def verdict_passed_def)
  have ex: "execute whoami_method ps rq0 (Some some_session) d
              = (Resolved (success_r (JNum (Fin 1))), d)"
    by (simp add: execute_def whoami_method_def queries_def whoami_def success_r_def
        dropEmpty_def some_session_def)
  show ?thesis
    using tryExecuteMethod_executed [OF can _ ex] by (simp add: verdict_passed_def)
qed

lemma whoami_tryExecute_anonymous:
  "tryExecuteMethod js whoami_method ps None rq0 d
     = (Return (error_r (Some ''This method is only available to authenticated users'')
                  (Some PERMISSION_NO_SESSION) None), ps, d)"
proof -
  have can: "canBeExecuted js (current d) whoami_method ps None
               = (Return (verdict_fail ''This method is only available to authenticated users''
                            PERMISSION_NO_SESSION), ps)"
    by (simp add: canBeExecuted_def whoami_method_def allowedToExecuteMethod_def
        verdict_fail_def)
  show ?thesis
    using tryExecuteMethod_refused [OF can] by (simp add: verdict_fail_def)
qed

text \<open>
  C3, where the code departs from it. When the dispatch of an entry throws, the loop
  records no response of the kind \<open>MULTICALL_ERROR\<close> and does not go on to the entries
  after it, whether the entry is breaking or not: the \<open>catch\<close> block throws a
  ReferenceError itself, and with it the whole handler.
\<close>

theorem dispatch_failure_escapes:
  assumes "call \<noteq> JNull" and "call \<noteq> JUndefined"
    and "find (\<lambda>method. JStr (path method) = js_prop call ''method'') methods = Some m"
    and "fst (tryExecuteMethod js m (parms_of call) ses rq d) = Throw e"
  shows "fst (multicallCalls js methods rq (call # rest) ses responses d) = Throw ReferenceError"
proof -
  obtain call' d' where "tryExecuteMethod js m (parms_of call) ses rq d = (Throw e, call', d')"
    using assms(4) by (cases "tryExecuteMethod js m (parms_of call) ses rq d") auto
  then show ?thesis
    using assms(1-3) by simp
qed

text \<open>
  At a batch of \<open>/orders/create\<close>, not breaking, and \<open>/ping\<close>: the loop throws, the
  handler throws, and \<open>execute\<close> rejects the whole multicall.
\<close>

theorem dispatch_failure_escapes_witness:
  "\<forall>js. fst (multicallCalls js [order_method, ping_method] rq0 [order_call, ping_call] None [] db0)
          = Throw ReferenceError
        \<and> fst (multicall_handler js [order_method, ping_method]
                 [''content'' \<mapsto> JObj [(''calls'', JArr [order_call, ping_call])]] None rq0 db0)
          = Threw
        \<and> fst (execute (multicall_method js [order_method, ping_method])
                 [''content'' \<mapsto> JObj [(''calls'', JArr [order_call, ping_call])]] rq0 None db0)
          = Rejected METHOD_ERROR"
proof
  fix js
  let ?ms = "[order_method, ping_method]"
  let ?ps = "[''content'' \<mapsto> JObj [(''calls'', JArr [order_call, ping_call])]]"
  have found: "find (\<lambda>method. JStr (path method) = js_prop order_call ''method'') ?ms
                 = Some order_method"
    by (simp add: order_call_def js_prop_def order_method_def)
  have "tryExecuteMethod js order_method (parms_of order_call) None rq0 db0
          = (Throw ReferenceError, parms_of order_call,
             \<lparr>current = empty_tables, saved = None, calls = [Begin, Rollback]\<rparr>)"
    using tryExecuteMethod_executed [of js db0 order_method "parms_of order_call" None
        verdict_passed "parms_of order_call" rq0] order_can order_execute
    by (simp add: current_db0 verdict_passed_def)
  then have thrown: "fst (tryExecuteMethod js order_method (parms_of order_call) None rq0 db0)
                       = Throw ReferenceError"
    by simp
  have loop: "fst (multicallCalls js ?ms rq0 [order_call, ping_call] None [] db0)
                = Throw ReferenceError"
    using dispatch_failure_escapes [OF _ _ found thrown, where rest = "[ping_call]" and responses = "[]"]
    by (simp add: order_call_def)
  obtain dl where "multicallCalls js ?ms rq0 [order_call, ping_call] None [] db0
                     = (Throw ReferenceError, dl)"
    using loop by (cases "multicallCalls js ?ms rq0 [order_call, ping_call] None [] db0") auto
  then have hd: "multicall_handler js ?ms ?ps None rq0 db0 = (Threw, dl)"
    by (simp add: multicall_handler_def js_prop_def del: multicallCalls.simps)
  then have "fst (execute (multicall_method js ?ms) ?ps rq0 None db0) = Rejected METHOD_ERROR"
    by (simp add: execute_def multicall_method_def del: multicallCalls.simps)
  then show "fst (multicallCalls js ?ms rq0 [order_call, ping_call] None [] db0)
          = Throw ReferenceError
        \<and> fst (multicall_handler js ?ms ?ps None rq0 db0) = Threw
        \<and> fst (execute (multicall_method js ?ms) ?ps rq0 None db0) = Rejected METHOD_ERROR"
    using loop hd by simp
qed

text \<open>
  C4, where the code departs from it. A successful response whose session property is
  null, which is what a logout returns, leaves the working session of the loop as it
  was: the entries after it run under the session that was logged out.
\<close>

theorem null_session_not_propagated:
  assumes "call \<noteq> JNull" and "call \<noteq> JUndefined"
    and "find (\<lambda>method. JStr (path method) = js_prop call ''method'') methods = Some m"
    and "tryExecuteMethod js m (parms_of call) ses rq d = (Return r, call', d')"
    and "session r = SessionNull" and "success r"
  shows "multicallCalls js methods rq (call # rest) ses responses d
           = multicallCalls js methods rq rest ses (responses @ [makeClientResponse r]) d'"
  using assms by simp

text \<open>
  At a batch of a logout and \<open>/whoami\<close>, sent under the session 7 of the user 1: the
  session row is deleted and the deletion committed, and \<open>/whoami\<close> still answers
  with the user 1. Called without a session over the same tables it is refused.
\<close>

theorem null_session_not_propagated_witness:
  "\<forall>js. multicallCalls js [logout_method, whoami_method] rq0 [logout_call, whoami_call]
            (Some some_session) [] db1
          = (Return [logout_response, success_r (JNum (Fin 1))],
             \<lparr>current = logged_out_tables, saved = None, calls = [Begin, Commit]\<rparr>)
        \<and> fst (tryExecuteMethod js whoami_method (parms_of whoami_call) None rq0
                 \<lparr>current = logged_out_tables, saved = None, calls = [Begin, Commit]\<rparr>)
          = Return (error_r (Some ''This method is only available to authenticated users'')
                      (Some PERMISSION_NO_SESSION) None)"
proof
  fix js
  let ?d = "\<lparr>current = logged_out_tables, saved = None, calls = [Begin, Commit]\<rparr>"
  have found: "find (\<lambda>method. JStr (path method) = js_prop logout_call ''method'')
                 [logout_method, whoami_method] = Some logout_method"
    by (simp add: logout_call_def js_prop_def logout_method_def)
  have first: "multicallCalls js [logout_method, whoami_method] rq0 [logout_call, whoami_call]
            (Some some_session) [] db1
          = multicallCalls js [logout_method, whoami_method] rq0 [whoami_call]
              (Some some_session) ([] @ [makeClientResponse logout_response]) ?d"
    using null_session_not_propagated [OF _ _ found logout_tryExecute,
        where rest = "[whoami_call]" and responses = "[]"]
    by (simp add: logout_call_def logout_response_def)
  have found2: "find (\<lambda>method. JStr (path method) = js_prop whoami_call ''method'')
                 [logout_method, whoami_method] = Some whoami_method"
    by (simp add: whoami_call_def js_prop_def logout_method_def whoami_method_def)
  have second: "multicallCalls js [logout_method, whoami_method] rq0 [whoami_call]
              (Some some_session) [logout_response] ?d
          = (Return [logout_response, success_r (JNum (Fin 1))], ?d)"
    using found2 whoami_tryExecute_session [of js "parms_of whoami_call" ?d]
    by (simp add: whoami_call_def makeClientResponse_def success_r_def dropEmpty_def parms_of_def)
  have keep: "makeClientResponse logout_response = logout_response"
    by (simp add: makeClientResponse_def logout_response_def dropEmpty_def)
  show "multicallCalls js [logout_method, whoami_method] rq0 [logout_call, whoami_call]
            (Some some_session) [] db1
          = (Return [logout_response, success_r (JNum (Fin 1))], ?d)
        \<and> fst (tryExecuteMethod js whoami_method (parms_of whoami_call) None rq0 ?d)
          = Return (error_r (Some ''This method is only available to authenticated users'')
                      (Some PERMISSION_NO_SESSION) None)"
    using first second keep whoami_tryExecute_anonymous [of js "parms_of whoami_call" ?d] by simp
qed

section \<open>The session manager: properties\<close>

lemma le_foldr_max: "x \<in> set xs \<Longrightarrow> x \<le> foldr max xs (0::nat)"
  by (induction xs) (auto simp: max_def)

lemma insertId_fresh: "row \<in> set rows \<Longrightarrow> s_session_id row \<noteq> insertId rows"
  using le_foldr_max [of "s_session_id row" "map s_session_id rows"]
  by (auto simp: insertId_def)

lemma filter_head_find: "filter P xs = x # ys \<Longrightarrow> find P xs = Some x"
  by (induction xs) (auto split: if_splits)

lemma find_fresh_append:
  "\<forall>x\<in>set xs. \<not> P x \<Longrightarrow> P y \<Longrightarrow> find P (xs @ [y]) = Some y"
  by (induction xs) auto

lemma filter_fresh_append:
  "\<forall>x\<in>set xs. \<not> P x \<Longrightarrow> P y \<Longrightarrow> filter P (xs @ [y]) = [y]"
  by (induction xs) auto

text \<open>The sessions after the insertion and the update of the login handler.\<close>

lemma sessions_after_login:
  "api_sessions (storeSessionToken uuid (insertId (api_sessions t))
                   (insertSession time uid cip agent t))
     = api_sessions t @
         [\<lparr>s_session_id = insertId (api_sessions t), s_user_id = uid,
           s_session_token = Some uuid, s_start_date = time, s_expiration_date = time + 3600,
           s_last_action = None, s_ip = cip, s_user_agent = agent\<rparr>]"
proof -
  have "map (\<lambda>s. if s_session_id s = insertId (api_sessions t)
                  then s\<lparr>s_session_token := Some uuid\<rparr> else s) (api_sessions t)
          = api_sessions t"
    by (rule map_idI) (use insertId_fresh [of _ "api_sessions t"] in auto)
  then show ?thesis
    by (simp add: storeSessionToken_def insertSession_def)
qed

lemma getSession_new:
  assumes "api_sessions t' = rows @ [new]" and "\<forall>row\<in>set rows. s_session_id row \<noteq> s_session_id new"
  shows "\<exists>a. getSession t' (s_session_id new)
           = Some \<lparr>session_id = s_session_id new, user_id = s_user_id new,
                   token = s_session_token new, start_date = s_start_date new,
                   expiration_date = s_expiration_date new, admin = a\<rparr>"
  using assms find_fresh_append [of rows "\<lambda>s. s_session_id s = s_session_id new" new]
  by (simp add: getSession_def)

text \<open>What a successful login went through, part by part.\<close>

lemma openSession_success:
  assumes "openSession env user rq t = (Returned r, t')" and "success r"
  shows "\<exists>loaded. getSession (storeSessionToken (getUUID env)
                   (insertId (api_sessions (deleteLoginTokens (ip rq) (client_agent rq) t)))
                   (insertSession (clock env) (u_user_id user) (ip rq) (client_agent rq)
                      (deleteLoginTokens (ip rq) (client_agent rq) t)))
              (insertId (api_sessions (deleteLoginTokens (ip rq) (client_agent rq) t)))
            = Some loaded \<and> session r = SessionObject loaded"
    and "t' = recordLogin (clock env) (u_user_id user)
            (storeSessionToken (getUUID env)
               (insertId (api_sessions (deleteLoginTokens (ip rq) (client_agent rq) t)))
               (insertSession (clock env) (u_user_id user) (ip rq) (client_agent rq)
                  (deleteLoginTokens (ip rq) (client_agent rq) t)))"
  using assms
  by (auto simp: openSession_def Let_def error_r_def successSession_def split: option.splits)

lemma checkCredentials_success:
  assumes "checkCredentials env username presented rq t = (Returned r, t')" and "success r"
  shows "\<exists>user others. filter (\<lambda>u. u_login_name u = username) (api_users t) = user # others
           \<and> openSession env user rq t = (Returned r, t')"
  using assms
  by (auto simp: checkCredentials_def error_r_def split: list.splits if_splits)

lemma login_success:
  assumes "login env ps ses rq t = (Returned r, t')"
  shows "\<exists>username presented. ps ''username'' = Some (JStr username)
           \<and> checkCredentials env username presented rq t = (Returned r, t')"
proof (cases "ps ''username''")
  case None
  then show ?thesis using assms by (simp add: login_def)
next
  case (Some v)
  show ?thesis
  proof (cases v)
    case (JStr username)
    show ?thesis
    proof (cases "ps ''password_hash''")
      case None
      then show ?thesis using assms Some JStr by (simp add: login_def)
    next
      case (Some w)
      then show ?thesis
        using assms \<open>ps ''username'' = Some v\<close> JStr by (cases w) (auto simp: login_def)
    qed
  qed (use assms Some in \<open>simp_all add: login_def\<close>)
qed

lemma alice_logs_in:
  "\<exists>r t'. login (env_with sha) (alice_credentials sha) None rq0 login_tables = (Returned r, t')
           \<and> success r \<and> session r = SessionObject alice_session"
  by (simp add: login_def checkCredentials_def openSession_def alice_credentials_def
      login_tables_def env_with_def rq0_def client_agent_def deleteLoginTokens_def
      insertId_def insertSession_def storeSessionToken_def getSession_def recordLogin_def
      successSession_def alice_session_def)

text \<open>
  C8. Round trip. When the login handler returns a response that reports success, the
  response carries the new session, whose token is the generated one and whose user is
  the user found under the given name; and \<open>establishSession\<close>, called at any later
  time with that token on the tables the login left, returns a session with the same
  identifier and the same user, and leaves its row in the table, renewed for an hour.
  The generated token is taken to be new: no session that exists at the login carries
  it.
\<close>

theorem login_then_establish:
  assumes "login env ps ses rq t = (Returned r, t')" and "success r"
    and "\<forall>row\<in>set (api_sessions t). s_session_token row \<noteq> Some (getUUID env)"
  shows "\<exists>s user.
           session r = SessionObject s \<and> token s = Some (getUUID env)
           \<and> find (\<lambda>u. Some (JStr (u_login_name u)) = ps ''username'') (api_users t) = Some user
           \<and> user_id s = u_user_id user
           \<and> (\<exists>s' t''. establishSession later t' (getUUID env) = (Some s', t'')
                  \<and> user_id s' = u_user_id user \<and> session_id s' = session_id s
                  \<and> (\<exists>row\<in>set (api_sessions t''). s_session_id row = session_id s'
                         \<and> s_session_token row = Some (getUUID env)
                         \<and> s_user_id row = u_user_id user
                         \<and> s_expiration_date row = later + 3600))"
proof -
  let ?t1 = "deleteLoginTokens (ip rq) (client_agent rq) t"
  let ?sid = "insertId (api_sessions ?t1)"
  obtain username user others loaded where
    name: "ps ''username'' = Some (JStr username)"
    and user: "filter (\<lambda>u. u_login_name u = username) (api_users t) = user # others"
    and loaded: "getSession (storeSessionToken (getUUID env) ?sid
                   (insertSession (clock env) (u_user_id user) (ip rq) (client_agent rq) ?t1)) ?sid
                  = Some loaded" "session r = SessionObject loaded"
    and t': "t' = recordLogin (clock env) (u_user_id user)
                    (storeSessionToken (getUUID env) ?sid
                       (insertSession (clock env) (u_user_id user) (ip rq) (client_agent rq) ?t1))"
  proof -
    obtain username presented where
      n: "ps ''username'' = Some (JStr username)"
      and v: "checkCredentials env username presented rq t = (Returned r, t')"
      using login_success [OF assms(1)] by blast
    obtain user others where
      u: "filter (\<lambda>u. u_login_name u = username) (api_users t) = user # others"
      and c: "openSession env user rq t = (Returned r, t')"
      using checkCredentials_success [OF v assms(2)] by blast
    show ?thesis
      using that n u openSession_success [OF c assms(2)] by blast
  qed
  let ?new = "\<lparr>s_session_id = ?sid, s_user_id = u_user_id user,
                s_session_token = Some (getUUID env), s_start_date = clock env,
                s_expiration_date = clock env + 3600, s_last_action = None, s_ip = ip rq,
                s_user_agent = client_agent rq\<rparr>"
  let ?t3 = "storeSessionToken (getUUID env) ?sid
               (insertSession (clock env) (u_user_id user) (ip rq) (client_agent rq) ?t1)"
  have old: "api_sessions ?t1 = api_sessions t"
    by (simp add: deleteLoginTokens_def)
  have rows3: "api_sessions ?t3 = api_sessions t @ [?new]"
    using sessions_after_login [of "getUUID env" ?t1 "clock env" "u_user_id user" "ip rq" "client_agent rq"]
    by (simp add: old)
  have rows': "api_sessions t' = api_sessions t @ [?new]"
    using rows3 by (simp add: t' recordLogin_def)
  have fresh_id: "\<forall>row\<in>set (api_sessions t). s_session_id row \<noteq> s_session_id ?new"
    using insertId_fresh [of _ "api_sessions t"] by (simp add: old)
  obtain a where "getSession ?t3 (s_session_id ?new)
           = Some \<lparr>session_id = s_session_id ?new, user_id = s_user_id ?new,
                   token = s_session_token ?new, start_date = s_start_date ?new,
                   expiration_date = s_expiration_date ?new, admin = a\<rparr>"
    using getSession_new [OF rows3 fresh_id] by blast
  then have s: "session_id loaded = ?sid" "user_id loaded = u_user_id user"
    "token loaded = Some (getUUID env)"
    using loaded(1) by auto
  obtain a' where s': "getSession t' ?sid
           = Some \<lparr>session_id = ?sid, user_id = u_user_id user,
                   token = Some (getUUID env), start_date = clock env,
                   expiration_date = clock env + 3600, admin = a'\<rparr>"
    using getSession_new [OF rows' fresh_id] by auto
  have hit: "filter (\<lambda>s. s_session_token s = Some (getUUID env)) (api_sessions t') = [?new]"
    using filter_fresh_append [of "api_sessions t" "\<lambda>s. s_session_token s = Some (getUUID env)" ?new]
      assms(3) by (simp add: rows')
  let ?s' = "\<lparr>session_id = ?sid, user_id = u_user_id user,
                   token = Some (getUUID env), start_date = clock env,
                   expiration_date = clock env + 3600, admin = a'\<rparr>"
  have est: "establishSession later t' (getUUID env) = (Some ?s', renewSession later ?sid t')"
    by (simp add: establishSession_def hit s')
  have live: "?new\<lparr>s_last_action := Some later, s_expiration_date := later + 3600\<rparr>
                \<in> set (api_sessions (renewSession later ?sid t'))"
    by (simp add: renewSession_def rows')
  have found: "find (\<lambda>u. Some (JStr (u_login_name u)) = ps ''username'') (api_users t) = Some user"
    using filter_head_find [OF user] by (simp add: name eq_commute)
  show ?thesis
    using loaded(2) s found est live
    by (intro exI [of _ loaded] exI [of _ user] conjI exI [of _ ?s']
        exI [of _ "renewSession later ?sid t'"]
        bexI [of _ "?new\<lparr>s_last_action := Some later, s_expiration_date := later + 3600\<rparr>"])
      simp_all
qed

text \<open>
  At the login of alice, from the client that holds the login token, under any digest
  function: the login creates the session 8 of the user 1, and establishing a session
  with its token a minute later yields a session of the user 1.
\<close>

theorem login_then_establish_witness:
  "\<forall>sha. \<exists>r t' s' t''.
      login (env_with sha) (alice_credentials sha) None rq0 login_tables = (Returned r, t')
      \<and> success r \<and> session r = SessionObject alice_session
      \<and> establishSession 160 t' uuid0 = (Some s', t'') \<and> user_id s' = 1"
proof
  fix sha
  obtain r t' where
    run: "login (env_with sha) (alice_credentials sha) None rq0 login_tables = (Returned r, t')"
    and ok: "success r" and ses: "session r = SessionObject alice_session"
    using alice_logs_in [of sha] by blast
  have fresh: "\<forall>row\<in>set (api_sessions login_tables). s_session_token row \<noteq> Some (getUUID (env_with sha))"
    by (simp add: login_tables_def env_with_def uuid0_def)
  have alice: "find (\<lambda>u. Some (JStr (u_login_name u)) = alice_credentials sha ''username'')
                 (api_users login_tables) = Some user \<Longrightarrow> u_user_id user = 1" for user
    by (auto simp: alice_credentials_def login_tables_def)
  obtain s' t'' where "establishSession 160 t' uuid0 = (Some s', t'')" "user_id s' = 1"
    using login_then_establish [OF run ok fresh, of 160] alice
    by (auto simp: env_with_def)
  then show "\<exists>r t' s' t''.
      login (env_with sha) (alice_credentials sha) None rq0 login_tables = (Returned r, t')
      \<and> success r \<and> session r = SessionObject alice_session
      \<and> establishSession 160 t' uuid0 = (Some s', t'') \<and> user_id s' = 1"
    using run ok ses by blast
qed

end
